theory Spec2Isabelle
  imports Complex_Main "HOL-Library.Word"
begin

unbundle bit_operations_syntax

section \<open>JavaScript values\<close>

text \<open>
  The handlers work on untyped request bodies, so values are modelled as the JavaScript
  values that \<^verbatim>\<open>express.json()\<close> and the two remote services can hand to the program.
  A number is an IEEE double: every finite double is a rational, and the program only
  asks whether a number is zero, positive or an integer, so finite numbers are carried
  as rationals next to the three special values.
\<close>

datatype jsnum = Fin rat | PosInf | NegInf | NaN

datatype json =
    JUndefined
  | JNull
  | JBool bool
  | JNum jsnum
  | JStr string
  | JArr "json list"
  | JObj "(string \<times> json) list"

text \<open>Thrown values are \<^verbatim>\<open>Error\<close> objects; the program reads \<^verbatim>\<open>code\<close> and \<^verbatim>\<open>message\<close>.\<close>

datatype js_error = Error (code: json) (message: string)

definition TypeError :: "string \<Rightarrow> js_error" where
  "TypeError m = Error JUndefined m"

text \<open>Truthiness, as the conditions \<^verbatim>\<open>if (x)\<close>, \<^verbatim>\<open>!x\<close> and \<^verbatim>\<open>x && y\<close> use it.\<close>

fun truthy :: "json \<Rightarrow> bool" where
  "truthy JUndefined = False"
| "truthy JNull = False"
| "truthy (JBool b) = b"
| "truthy (JNum (Fin q)) = (q \<noteq> 0)"
| "truthy (JNum NaN) = False"
| "truthy (JNum _) = True"
| "truthy (JStr s) = (s \<noteq> [])"
| "truthy (JArr _) = True"
| "truthy (JObj _) = True"

fun lookup :: "(string \<times> json) list \<Rightarrow> string \<Rightarrow> json" where
  "lookup [] k = JUndefined"
| "lookup ((k', v) # kvs) k = (if k' = k then v else lookup kvs k)"

text \<open>
  Reading a named property \<^verbatim>\<open>v.k\<close>. The names this program reads are ordinary
  identifiers (never an index, never \<^verbatim>\<open>length\<close>), which only plain objects carry;
  reading any property of \<^verbatim>\<open>undefined\<close> or \<^verbatim>\<open>null\<close> throws a TypeError.
\<close>

fun get :: "json \<Rightarrow> string \<Rightarrow> js_error + json" where
  "get JUndefined k = Inl (TypeError (''Cannot read properties of undefined (reading '' @ k @ '')''))"
| "get JNull k = Inl (TypeError (''Cannot read properties of null (reading '' @ k @ '')''))"
| "get (JObj kvs) k = Inr (lookup kvs k)"
| "get _ k = Inr JUndefined"

text \<open>The same read on a value already known to be an object (a validated product).\<close>

fun field_of :: "json \<Rightarrow> string \<Rightarrow> json" where
  "field_of (JObj kvs) k = lookup kvs k"
| "field_of _ k = JUndefined"

fun digit_char :: "nat \<Rightarrow> char" where
  "digit_char n = ''0123456789'' ! (n mod 10)"

fun show_nat :: "nat \<Rightarrow> string" where
  "show_nat n = (if n < 10 then [digit_char n] else show_nat (n div 10) @ [digit_char n])"

declare show_nat.simps [simp del]

text \<open>Reading the element \<^verbatim>\<open>v[i]\<close>.\<close>

fun get_index :: "json \<Rightarrow> nat \<Rightarrow> js_error + json" where
  "get_index JUndefined i = Inl (TypeError ''Cannot read properties of undefined'')"
| "get_index JNull i = Inl (TypeError ''Cannot read properties of null'')"
| "get_index (JArr xs) i = Inr (if i < length xs then xs ! i else JUndefined)"
| "get_index (JStr s) i = Inr (if i < length s then JStr [s ! i] else JUndefined)"
| "get_index (JObj kvs) i = Inr (lookup kvs (show_nat i))"
| "get_index _ i = Inr JUndefined"

text \<open>Assignment \<^verbatim>\<open>o.k = v\<close>: an existing key keeps its place, a new key goes last.\<close>

fun assign :: "(string \<times> json) list \<Rightarrow> string \<Rightarrow> json \<Rightarrow> (string \<times> json) list" where
  "assign [] k v = [(k, v)]"
| "assign ((k', v') # kvs) k v = (if k' = k then (k, v) # kvs else (k', v') # assign kvs k v)"

fun set_prop :: "json \<Rightarrow> string \<Rightarrow> json \<Rightarrow> json" where
  "set_prop (JObj kvs) k v = JObj (assign kvs k v)"
| "set_prop x k v = x"

fun join_with :: "string \<Rightarrow> string list \<Rightarrow> string" where
  "join_with sep [] = []"
| "join_with sep [x] = x"
| "join_with sep (x # y # ys) = x @ sep @ join_with sep (y # ys)"

text \<open>
  \<^verbatim>\<open>arr.join(' ')\<close> on an array the validator has accepted as an array of strings.
\<close>

fun str_of :: "json \<Rightarrow> string" where
  "str_of (JStr s) = s"
| "str_of _ = []"

fun join_space :: "json \<Rightarrow> string" where
  "join_space (JArr xs) = join_with '' '' (map str_of xs)"
| "join_space _ = []"

fun array_length :: "json \<Rightarrow> nat" where
  "array_length (JArr xs) = length xs"
| "array_length _ = 0"

section \<open>The schema library\<close>

text \<open>
  The schemas of \<^verbatim>\<open>src/schemas/productSchema.ts\<close> are built from six combinators of the
  zod library: \<^verbatim>\<open>z.string()\<close> with the checks \<^verbatim>\<open>.uuid()\<close> and \<^verbatim>\<open>.url()\<close>, \<^verbatim>\<open>z.number()\<close>,
  \<^verbatim>\<open>z.array(s)\<close>, \<^verbatim>\<open>s.optional()\<close> and \<^verbatim>\<open>z.object(shape)\<close>. A schema is a value of
  \<open>zschema\<close>; \<open>parse\<close> is the library's synchronous parser on those combinators: it
  collects the issues of every field and element, each with its path, and drops keys
  that the shape does not declare.
\<close>

datatype pseg = Key string | Idx nat

datatype issue = Issue (path: "pseg list") (issue_message: string)

datatype zcheck = Uuid | Url

datatype zschema =
    ZString "zcheck list"
  | ZNumber
  | ZArray zschema
  | ZOptional zschema
  | ZObject "(string \<times> zschema) list"

fun parsedType :: "json \<Rightarrow> string" where
  "parsedType JUndefined = ''undefined''"
| "parsedType JNull = ''null''"
| "parsedType (JBool _) = ''boolean''"
| "parsedType (JNum NaN) = ''nan''"
| "parsedType (JNum _) = ''number''"
| "parsedType (JStr _) = ''string''"
| "parsedType (JArr _) = ''array''"
| "parsedType (JObj _) = ''object''"

definition invalid_type :: "string \<Rightarrow> pseg list \<Rightarrow> json \<Rightarrow> issue" where
  "invalid_type expected p v =
     Issue p (if v = JUndefined then ''Required''
              else ''Expected '' @ expected @ '', received '' @ parsedType v)"

definition is_hex :: "char \<Rightarrow> bool" where
  "is_hex c = (c \<in> set ''0123456789abcdefABCDEF'')"

text \<open>
  The library's UUID pattern: five groups of 8, 4, 4, 4 and 12 hexadecimal digits
  separated by hyphens, anchored at both ends.
\<close>

fun match_groups :: "nat list \<Rightarrow> string \<Rightarrow> bool" where
  "match_groups [] s = False"
| "match_groups [n] s = (length s = n \<and> list_all is_hex s)"
| "match_groups (n # m # ns) s =
     (length (take n s) = n \<and> list_all is_hex (take n s) \<and>
      (case drop n s of [] \<Rightarrow> False | c # rest \<Rightarrow> c = CHR ''-'' \<and> match_groups (m # ns) rest))"

definition uuidRegex :: "string \<Rightarrow> bool" where
  "uuidRegex s = match_groups [8, 4, 4, 4, 12] s"

text \<open>
  \<^verbatim>\<open>.url()\<close> asks the platform's URL parser whether \<^verbatim>\<open>new URL(s)\<close> throws; that parser
  is a parameter \<open>validUrl\<close> of the model.
\<close>

fun run_check :: "(string \<Rightarrow> bool) \<Rightarrow> pseg list \<Rightarrow> string \<Rightarrow> zcheck \<Rightarrow> issue list" where
  "run_check validUrl p s Uuid = (if uuidRegex s then [] else [Issue p ''Invalid uuid''])"
| "run_check validUrl p s Url = (if validUrl s then [] else [Issue p ''Invalid url''])"

fun parse :: "(string \<Rightarrow> bool) \<Rightarrow> zschema \<Rightarrow> pseg list \<Rightarrow> json \<Rightarrow> issue list \<times> json" where
  "parse u (ZString checks) p v =
     (case v of
        JStr s \<Rightarrow> (concat (map (run_check u p s) checks), v)
      | _ \<Rightarrow> ([invalid_type ''string'' p v], JUndefined))"
| "parse u ZNumber p v =
     (case v of
        JNum n \<Rightarrow> (if n = NaN then ([invalid_type ''number'' p v], JUndefined) else ([], v))
      | _ \<Rightarrow> ([invalid_type ''number'' p v], JUndefined))"
| "parse u (ZArray s) p v =
     (case v of
        JArr xs \<Rightarrow>
          (let rs = map (\<lambda>(i, x). parse u s (p @ [Idx i]) x) (enumerate 0 xs)
           in (concat (map fst rs), JArr (map snd rs)))
      | _ \<Rightarrow> ([invalid_type ''array'' p v], JUndefined))"
| "parse u (ZOptional s) p v = (if v = JUndefined then ([], JUndefined) else parse u s p v)"
| "parse u (ZObject shape) p v =
     (case v of
        JObj kvs \<Rightarrow>
          (let rs = map (\<lambda>(k, s). (k, parse u s (p @ [Key k]) (lookup kvs k))) shape
           in (concat (map (\<lambda>(k, r). fst r) rs),
               JObj (map (\<lambda>(k, r). (k, snd r))
                      (filter (\<lambda>(k, r). snd r \<noteq> JUndefined \<or> k \<in> fst ` set kvs) rs))))
      | _ \<Rightarrow> ([invalid_type ''object'' p v], JUndefined))"

text \<open>\<^verbatim>\<open>schema.safeParse(v)\<close>: the issues when there is one, the parsed value otherwise.\<close>

definition safeParse :: "(string \<Rightarrow> bool) \<Rightarrow> zschema \<Rightarrow> json \<Rightarrow> issue list + json" where
  "safeParse u s v = (case parse u s [] v of (issues, out) \<Rightarrow> if issues = [] then Inr out else Inl issues)"

text \<open>The fields \<^verbatim>\<open>.success\<close> and \<^verbatim>\<open>.data\<close> of a safeParse result.\<close>

fun success :: "issue list + json \<Rightarrow> bool" where
  "success (Inr _) = True"
| "success (Inl _) = False"

fun data :: "issue list + json \<Rightarrow> json" where
  "data (Inr d) = d"
| "data (Inl _) = JUndefined"

text \<open>A schema is flat when no object schema occurs in it.\<close>

fun flat :: "zschema \<Rightarrow> bool" where
  "flat (ZString cs) = True"
| "flat ZNumber = True"
| "flat (ZArray s) = flat s"
| "flat (ZOptional s) = flat s"
| "flat (ZObject shape) = False"

text \<open>
  The specification speaks of the violated fields of an input. A field is violated when
  its own value fails its type or shape constraint: a string that is not a string or
  fails one of its checks, a number that is not a number, an array or an object that
  is not one. An array or object of the right kind is not itself violated; its
  elements and declared members are looked at in turn, each under its own path, and an
  absent optional field is never violated. \<open>violated_fields\<close> lists the paths of the
  violated fields; it is written from that description, not from the parser.
\<close>

fun check_ok :: "(string \<Rightarrow> bool) \<Rightarrow> zcheck \<Rightarrow> string \<Rightarrow> bool" where
  "check_ok u Uuid s = uuidRegex s"
| "check_ok u Url s = u s"

fun violated_fields :: "(string \<Rightarrow> bool) \<Rightarrow> zschema \<Rightarrow> pseg list \<Rightarrow> json \<Rightarrow> pseg list list" where
  "violated_fields u (ZString checks) p v =
     (case v of
        JStr s \<Rightarrow> if list_all (\<lambda>c. check_ok u c s) checks then [] else [p]
      | _ \<Rightarrow> [p])"
| "violated_fields u ZNumber p v =
     (case v of
        JNum n \<Rightarrow> if n = NaN then [p] else []
      | _ \<Rightarrow> [p])"
| "violated_fields u (ZArray s) p v =
     (case v of
        JArr xs \<Rightarrow> concat (map (\<lambda>(i, x). violated_fields u s (p @ [Idx i]) x) (enumerate 0 xs))
      | _ \<Rightarrow> [p])"
| "violated_fields u (ZOptional s) p v =
     (if v = JUndefined then [] else violated_fields u s p v)"
| "violated_fields u (ZObject shape) p v =
     (case v of
        JObj kvs \<Rightarrow> concat (map (\<lambda>(k, s). violated_fields u s (p @ [Key k]) (lookup kvs k)) shape)
      | _ \<Rightarrow> [p])"

section \<open>src/schemas/productSchema.ts\<close>

definition dimensionsShape :: "(string \<times> zschema) list" where
  "dimensionsShape =
     [(''weight'', ZString []), (''width'', ZString []),
      (''height'', ZString []), (''depth'', ZString [])]"

definition productShape :: "(string \<times> zschema) list" where
  "productShape =
     [(''id'', ZOptional (ZString [Uuid])),
      (''name'', ZString []),
      (''brand'', ZString []),
      (''sku'', ZString []),
      (''category'', ZString []),
      (''price'', ZNumber),
      (''currency'', ZString []),
      (''stock'', ZNumber),
      (''description'', ZString []),
      (''features'', ZString []),
      (''rating'', ZNumber),
      (''reviewsCount'', ZNumber),
      (''tags'', ZArray (ZString [])),
      (''imageUrl'', ZString [Url]),
      (''manufacturer'', ZString []),
      (''model'', ZString []),
      (''releaseDate'', ZString []),
      (''warranty'', ZString []),
      (''dimensions'', ZOptional (ZObject dimensionsShape)),
      (''color'', ZString []),
      (''material'', ZString []),
      (''origin'', ZString []),
      (''descriptionVector'', ZOptional (ZArray ZNumber)),
      (''imageVector'', ZOptional (ZArray ZNumber)),
      (''tagsVector'', ZOptional (ZArray ZNumber)),
      (''featuresVector'', ZOptional (ZArray ZNumber)),
      (''dimensionsVector'', ZOptional (ZArray ZNumber))]"

definition productSchema :: zschema where
  "productSchema = ZObject productShape"

definition productIDSchema :: zschema where
  "productIDSchema = ZObject [(''id'', ZString [Uuid])]"

definition tagsSchema :: zschema where
  "tagsSchema = ZObject [(''tags'', ZArray (ZString []))]"

definition featuresSchema :: zschema where
  "featuresSchema = ZObject [(''tags'', ZArray (ZString []))]"

section \<open>Identifier generation\<close>

text \<open>
  \<^verbatim>\<open>uuidv4()\<close> of the uuid package: sixteen random bytes, here one 128-bit word with
  byte 0 in the most significant place, with the version bits of byte 6 set to 4 and
  the variant bits of byte 8 set to binary 10, printed as lower-case hexadecimal in
  groups of 4, 2, 2, 2 and 6 bytes.
\<close>

definition hexDigit :: "nat \<Rightarrow> char" where
  "hexDigit n = ''0123456789abcdef'' ! (n mod 16)"

definition nibble :: "128 word \<Rightarrow> nat \<Rightarrow> nat" where
  "nibble w i = unat (drop_bit (4 * (31 - i)) w AND 15)"

definition set_version :: "128 word \<Rightarrow> 128 word" where
  "set_version w =
     (((w AND NOT (push_bit 72 0xF0)) OR push_bit 72 0x40)
        AND NOT (push_bit 56 0xC0)) OR push_bit 56 0x80"

definition unsafeStringify :: "128 word \<Rightarrow> string" where
  "unsafeStringify w =
     map (\<lambda>i. hexDigit (nibble w i)) [0..<8] @ ''-'' @
     map (\<lambda>i. hexDigit (nibble w i)) [8..<12] @ ''-'' @
     map (\<lambda>i. hexDigit (nibble w i)) [12..<16] @ ''-'' @
     map (\<lambda>i. hexDigit (nibble w i)) [16..<20] @ ''-'' @
     map (\<lambda>i. hexDigit (nibble w i)) [20..<32]"

definition uuidv4 :: "128 word \<Rightarrow> string" where
  "uuidv4 rnds = unsafeStringify (set_version rnds)"

section \<open>The outside world\<close>

text \<open>
  The program talks to two remote services: the embedding endpoint (one HTTP POST per
  text) and the document store (create, point read, query). A \<open>call\<close> is one such
  request: \<open>EmbeddingPost text\<close> is \<^verbatim>\<open>axios.post(endPoint, { input: text }, headers)\<close>,
  the other three are the calls on the store's container. The SQL text of a query is
  fixed by the program, so it is named rather than
  spelled out: \<open>SelectAll\<close> is the projection of \<^verbatim>\<open>getProducts\<close>, and
  \<open>SelectTopByDistance f\<close> is \<^verbatim>\<open>SELECT TOP @top ... ORDER BY VectorDistance(c.f, @queryVector)\<close>;
  the bound parameters travel with it.
\<close>

datatype vector_field = DescriptionVector | TagsVector | FeaturesVector

datatype sql = SelectAll | SelectTopByDistance vector_field

datatype call =
    EmbeddingPost json
  | ItemsCreate json
  | ItemRead json json
  | ItemsQuery sql "(string \<times> json) list"

datatype event = Called call | Logged string string

text \<open>
  The environment of one request: how the outside answers a call (it may depend on
  everything that happened before in the request), the platform's URL parser, and the
  random bits the identifier generator draws.
\<close>

record env =
  respond :: "event list \<Rightarrow> call \<Rightarrow> js_error + json"
  validUrl :: "string \<Rightarrow> bool"
  randomBits :: "128 word"

text \<open>
  An asynchronous computation takes the events so far and returns either the thrown
  error or its value, with the events extended.
\<close>

type_synonym 'a io = "event list \<Rightarrow> (js_error + 'a) \<times> event list"

definition io_return :: "'a \<Rightarrow> 'a io" where
  "io_return x tr = (Inr x, tr)"

definition io_throw :: "js_error \<Rightarrow> 'a io" where
  "io_throw e tr = (Inl e, tr)"

definition io_lift :: "js_error + 'a \<Rightarrow> 'a io" where
  "io_lift r tr = (r, tr)"

definition io_bind :: "'a io \<Rightarrow> ('a \<Rightarrow> 'b io) \<Rightarrow> 'b io" where
  "io_bind m f tr = (case m tr of (Inl e, tr') \<Rightarrow> (Inl e, tr') | (Inr x, tr') \<Rightarrow> f x tr')"

definition io_catch :: "'a io \<Rightarrow> (js_error \<Rightarrow> 'a io) \<Rightarrow> 'a io" where
  "io_catch m h tr = (case m tr of (Inl e, tr') \<Rightarrow> h e tr' | (Inr x, tr') \<Rightarrow> (Inr x, tr'))"

definition await :: "env \<Rightarrow> call \<Rightarrow> json io" where
  "await w c tr = (respond w tr c, tr @ [Called c])"

definition logger_error :: "string \<Rightarrow> string \<Rightarrow> unit io" where
  "logger_error what detail tr = (Inr (), tr @ [Logged what detail])"

section \<open>src/services/embeddingService.ts\<close>

text \<open>
  The answer of the outside to \<open>EmbeddingPost\<close> is the body \<^verbatim>\<open>response.data\<close>; the
  function returns \<^verbatim>\<open>response.data.data[0].embedding\<close>.
\<close>

definition generateTextVector :: "env \<Rightarrow> json \<Rightarrow> json io" where
  "generateTextVector w text =
     io_bind (await w (EmbeddingPost text)) (\<lambda>response_data.
     io_bind (io_lift (get response_data ''data'')) (\<lambda>d.
     io_bind (io_lift (get_index d 0)) (\<lambda>first.
     io_lift (get first ''embedding''))))"

section \<open>src/services/productService.ts\<close>

definition addProduct :: "env \<Rightarrow> json \<Rightarrow> json io" where
  "addProduct w product =
     io_bind (await w (ItemsCreate product)) (\<lambda>response.
     io_lift (get response ''resource''))"

definition ProductService_getProductById :: "env \<Rightarrow> json \<Rightarrow> json io" where
  "ProductService_getProductById w ident =
     io_catch
       (io_bind (await w (ItemRead ident ident)) (\<lambda>response.
        io_lift (get response ''resource'')))
       (\<lambda>error. if code error = JNum (Fin 404) then io_return JNull else io_throw error)"

definition ProductService_getProducts :: "env \<Rightarrow> json io" where
  "ProductService_getProducts w =
     io_bind (await w (ItemsQuery SelectAll [])) (\<lambda>response.
     io_lift (get response ''resources''))"

text \<open>
  The three search methods differ only in the vector field named in the query text.
  The parameter \<^verbatim>\<open>top\<close> has the default 10, which JavaScript applies when the argument
  is \<^verbatim>\<open>undefined\<close>.
\<close>

definition searchByVector :: "env \<Rightarrow> vector_field \<Rightarrow> json \<Rightarrow> json \<Rightarrow> json io" where
  "searchByVector w f queryVector top' =
     io_bind (await w (ItemsQuery (SelectTopByDistance f)
                [(''@queryVector'', queryVector),
                 (''@top'', if top' = JUndefined then JNum (Fin 10) else top')])) (\<lambda>response.
     io_lift (get response ''resources''))"

definition ProductService_searchProductsByDescriptionVector :: "env \<Rightarrow> json \<Rightarrow> json \<Rightarrow> json io" where
  "ProductService_searchProductsByDescriptionVector w = searchByVector w DescriptionVector"

definition ProductService_searchProductsByTagsVector :: "env \<Rightarrow> json \<Rightarrow> json \<Rightarrow> json io" where
  "ProductService_searchProductsByTagsVector w = searchByVector w TagsVector"

definition ProductService_searchProductsByFeaturesVector :: "env \<Rightarrow> json \<Rightarrow> json \<Rightarrow> json io" where
  "ProductService_searchProductsByFeaturesVector w = searchByVector w FeaturesVector"

section \<open>src/controllers/productController.ts\<close>

text \<open>
  A handler is an asynchronous function: it ends either by sending a response (every
  \<^verbatim>\<open>return res.status(s).json(b)\<close> is the value \<open>Inr\<close> of that response) or by rejecting
  with the error that escaped it (\<open>Inl\<close>), in which case it has sent nothing. The routes
  call the handlers without awaiting or catching them.
\<close>

record response =
  status :: nat
  body :: json

definition reply :: "nat \<Rightarrow> json \<Rightarrow> response io" where
  "reply s b = io_return \<lparr>status = s, body = b\<rparr>"

definition success_body :: "json \<Rightarrow> json" where
  "success_body d = JObj [(''status'', JStr ''success''), (''data'', d)]"

definition message_body :: "string \<Rightarrow> json" where
  "message_body m = JObj [(''status'', JStr ''error''), (''message'', JStr m)]"

definition getProducts :: "env \<Rightarrow> response io" where
  "getProducts w =
     io_catch
       (io_bind (ProductService_getProducts w) (\<lambda>products.
        reply 200 (success_body products)))
       (\<lambda>error.
        io_bind (logger_error ''Error getting products:'' (message error)) (\<lambda>_.
        reply 500 (message_body ''Internal Server Error'')))"

definition getProductById :: "env \<Rightarrow> string \<Rightarrow> response io" where
  "getProductById w ident =
     (let parseIDResult = safeParse (validUrl w) productIDSchema (JObj [(''id'', JStr ident)]) in
      if \<not> success parseIDResult then
        reply 400 (message_body ''Invalid product ID, should be a valid UUID'')
      else
        io_catch
          (io_bind (ProductService_getProductById w (field_of (data parseIDResult) ''id'')) (\<lambda>product.
           if \<not> truthy product then reply 404 (message_body ''Product not found'')
           else reply 200 (success_body product)))
          (\<lambda>error.
           io_bind (logger_error ''Error getting product:'' (message error)) (\<lambda>_.
           reply 500 (message_body ''Internal Server Error''))))"

fun seg_text :: "pseg \<Rightarrow> string" where
  "seg_text (Key k) = k"
| "seg_text (Idx i) = show_nat i"

text \<open>One entry of the 400 body: \<^verbatim>\<open>{ path: err.path.join('.'), message: err.message }\<close>.\<close>

definition error_entry :: "issue \<Rightarrow> json" where
  "error_entry err =
     JObj [(''path'', JStr (join_with ''.'' (map seg_text (path err)))),
           (''message'', JStr (issue_message err))]"

definition attach_vector :: "env \<Rightarrow> bool \<Rightarrow> string \<Rightarrow> json \<Rightarrow> json \<Rightarrow> json io" where
  "attach_vector w cond name text product =
     (if cond then
        io_bind (generateTextVector w text) (\<lambda>v. io_return (set_prop product name v))
      else io_return product)"

definition createProduct :: "env \<Rightarrow> json \<Rightarrow> response io" where
  "createProduct w req_body =
     (let parseResult = safeParse (validUrl w) productSchema req_body in
      case parseResult of
        Inl errs \<Rightarrow>
          reply 400 (JObj [(''status'', JStr ''error''), (''errors'', JArr (map error_entry errs))])
      | Inr product0 \<Rightarrow>
          io_catch
            (let product1 =
                   (if \<not> truthy (field_of product0 ''id'')
                    then set_prop product0 ''id'' (JStr (uuidv4 (randomBits w)))
                    else product0) in
             io_bind (attach_vector w (truthy (field_of product1 ''description''))
                        ''descriptionVector'' (field_of product1 ''description'') product1) (\<lambda>product2.
             io_bind (attach_vector w
                        (truthy (field_of product2 ''tags'') \<and> array_length (field_of product2 ''tags'') > 0)
                        ''tagsVector'' (JStr (join_space (field_of product2 ''tags''))) product2) (\<lambda>product3.
             io_bind (attach_vector w (truthy (field_of product3 ''features''))
                        ''featuresVector'' (field_of product3 ''features'') product3) (\<lambda>product4.
             io_bind (addProduct w product4) (\<lambda>createdProduct.
             reply 201 (success_body createdProduct))))))
            (\<lambda>error.
             io_bind (logger_error ''Error creating product:'' (message error)) (\<lambda>_.
             reply 500 (message_body ''Internal Server Error''))))"

text \<open>
  \<^verbatim>\<open>top && Number.isInteger(top) && top > 0 ? top : 10\<close>. \<^verbatim>\<open>Number.isInteger\<close> is false
  on everything that is not a finite number, so the comparison is only ever evaluated on
  a finite number.
\<close>

fun Number_isInteger :: "json \<Rightarrow> bool" where
  "Number_isInteger (JNum (Fin q)) = (of_int \<lfloor>q\<rfloor> = q)"
| "Number_isInteger _ = False"

fun greater_than_zero :: "json \<Rightarrow> bool" where
  "greater_than_zero (JNum (Fin q)) = (q > 0)"
| "greater_than_zero (JNum PosInf) = True"
| "greater_than_zero _ = False"

definition topResults :: "json \<Rightarrow> json" where
  "topResults top' =
     (if truthy top' \<and> Number_isInteger top' \<and> greater_than_zero top' then top' else JNum (Fin 10))"

definition searchProductsByTagsVector :: "env \<Rightarrow> json \<Rightarrow> response io" where
  "searchProductsByTagsVector w req_body =
     io_bind (io_lift (get req_body ''queryTags'')) (\<lambda>queryTags.
     io_bind (io_lift (get req_body ''top'')) (\<lambda>top'.
     let parsedTags = safeParse (validUrl w) tagsSchema (JObj [(''tags'', queryTags)]) in
     if \<not> truthy (data parsedTags) then
       reply 400 (message_body
         ''Invalid tags. It should be an array of strings ie \"queryVector\" : [\"item\",\"item2\"].'')
     else
       io_bind (generateTextVector w (JStr (join_space (field_of (data parsedTags) ''tags'')))) (\<lambda>tagsVector.
       io_catch
         (io_bind (ProductService_searchProductsByTagsVector w tagsVector (topResults top')) (\<lambda>results.
          reply 200 (success_body results)))
         (\<lambda>error.
          io_bind (logger_error ''Error searching products by tags:'' (message error)) (\<lambda>_.
          reply 500 (message_body ''Internal Server Error''))))))"

definition searchProductsByFeaturesVector :: "env \<Rightarrow> json \<Rightarrow> response io" where
  "searchProductsByFeaturesVector w req_body =
     io_bind (io_lift (get req_body ''queryFeatures'')) (\<lambda>queryFeatures.
     io_bind (io_lift (get req_body ''top'')) (\<lambda>top'.
     let parsedFeature = safeParse (validUrl w) featuresSchema (JObj [(''tags'', queryFeatures)]) in
     if \<not> success parsedFeature then
       reply 400 (message_body
         ''Invalid features. It should be an array of strings ie \"queryVector\" : [\"item\",\"item2\"].'')
     else
       io_bind (generateTextVector w (JStr (join_space (field_of (data parsedFeature) ''tags'')))) (\<lambda>featuresVector.
       io_catch
         (io_bind (ProductService_searchProductsByFeaturesVector w featuresVector (topResults top')) (\<lambda>results.
          reply 200 (success_body results)))
         (\<lambda>error.
          io_bind (logger_error ''Error searching products by features:'' (message error)) (\<lambda>_.
          reply 500 (message_body ''Internal Server Error''))))))"

definition searchProductsByDescriptionVector :: "env \<Rightarrow> json \<Rightarrow> response io" where
  "searchProductsByDescriptionVector w req_body =
     io_bind (io_lift (get req_body ''queryDescription'')) (\<lambda>queryDescription.
     io_bind (io_lift (get req_body ''top'')) (\<lambda>top'.
     io_bind (generateTextVector w queryDescription) (\<lambda>descriptionVector.
     io_catch
       (io_bind (ProductService_searchProductsByDescriptionVector w descriptionVector (topResults top')) (\<lambda>results.
        reply 200 (success_body results)))
       (\<lambda>error.
        io_bind (logger_error ''Error searching products by description:'' (message error)) (\<lambda>_.
        reply 500 (message_body ''Internal Server Error''))))))"

section \<open>src/services/cosmosdbService.ts\<close>

text \<open>
  The singleton's \<^verbatim>\<open>initialize\<close> and \<^verbatim>\<open>init\<close> as a transition system. JavaScript runs
  one piece of code at a time and switches only at an \<^verbatim>\<open>await\<close>, so an interleaving is
  a sequence of three kinds of event: some caller invokes \<^verbatim>\<open>initialize()\<close>; the store
  answers the database creation that an invocation of \<^verbatim>\<open>init()\<close> is waiting for; the
  store answers the container creation that an invocation is waiting for. Promises
  created by \<^verbatim>\<open>init()\<close> are numbered in the order of creation, and an invocation is
  named by its promise. The two counters and the list \<open>returned\<close> observe the run: how
  many creation calls were issued, and what each \<^verbatim>\<open>initialize()\<close> call handed back.
\<close>

datatype init_stage = AwaitDatabase | AwaitContainer json

datatype init_return = Immediately | ThePromise nat

record cosmos =
  initialized :: bool
  initializing :: "nat option"
  productsContainer :: "json option"
  suspended :: "nat \<rightharpoonup> init_stage"
  settled :: "nat \<rightharpoonup> js_error + unit"
  promises :: nat
  databaseCreations :: nat
  containerCreations :: nat
  returned :: "init_return list"

definition new_CosmosDB :: cosmos where
  "new_CosmosDB =
     \<lparr>initialized = False, initializing = None, productsContainer = None,
      suspended = Map.empty, settled = Map.empty, promises = 0,
      databaseCreations = 0, containerCreations = 0, returned = []\<rparr>"

datatype cosmos_event =
    CallInitialize
  | DatabaseAnswer nat "js_error + json"
  | ContainerAnswer nat "js_error + json"

text \<open>
  \<^verbatim>\<open>init()\<close> runs up to its first \<^verbatim>\<open>await\<close>: it issues
  \<^verbatim>\<open>client.databases.createIfNotExists\<close> and hands back a fresh pending promise.
\<close>

definition init :: "cosmos \<Rightarrow> nat \<times> cosmos" where
  "init s =
     (let p = promises s in
      (p, s\<lparr>promises := p + 1,
            databaseCreations := databaseCreations s + 1,
            suspended := (suspended s)(p \<mapsto> AwaitDatabase)\<rparr>))"

definition initialize :: "cosmos \<Rightarrow> cosmos" where
  "initialize s =
     (if initialized s then s\<lparr>returned := returned s @ [Immediately]\<rparr>
      else case initializing s of
        Some p \<Rightarrow> s\<lparr>returned := returned s @ [ThePromise p]\<rparr>
      | None \<Rightarrow>
          (case init s of (p, s') \<Rightarrow>
             s'\<lparr>initializing := Some p, returned := returned s' @ [ThePromise p]\<rparr>))"

text \<open>
  The rest of \<^verbatim>\<open>init()\<close>: after the database answer it calls
  \<^verbatim>\<open>createContainerIfNotExists\<close>, which issues \<^verbatim>\<open>database.containers.createIfNotExists\<close>;
  after the container answer it stores the container and sets \<^verbatim>\<open>initialized\<close>. A failed
  answer is logged and rethrown, which rejects the promise and changes no field.
\<close>

definition resume_database :: "nat \<Rightarrow> js_error + json \<Rightarrow> cosmos \<Rightarrow> cosmos" where
  "resume_database p answer s =
     (if suspended s p = Some AwaitDatabase then
        (case answer of
           Inl e \<Rightarrow> s\<lparr>suspended := (suspended s)(p := None), settled := (settled s)(p \<mapsto> Inl e)\<rparr>
         | Inr database \<Rightarrow>
             s\<lparr>containerCreations := containerCreations s + 1,
               suspended := (suspended s)(p \<mapsto> AwaitContainer database)\<rparr>)
      else s)"

definition resume_container :: "nat \<Rightarrow> js_error + json \<Rightarrow> cosmos \<Rightarrow> cosmos" where
  "resume_container p answer s =
     (case suspended s p of
        Some (AwaitContainer database) \<Rightarrow>
          (case answer of
             Inl e \<Rightarrow> s\<lparr>suspended := (suspended s)(p := None), settled := (settled s)(p \<mapsto> Inl e)\<rparr>
           | Inr container \<Rightarrow>
               s\<lparr>productsContainer := Some container, initialized := True,
                 suspended := (suspended s)(p := None), settled := (settled s)(p \<mapsto> Inr ())\<rparr>)
      | _ \<Rightarrow> s)"

fun cosmos_step :: "cosmos \<Rightarrow> cosmos_event \<Rightarrow> cosmos" where
  "cosmos_step s CallInitialize = initialize s"
| "cosmos_step s (DatabaseAnswer p answer) = resume_database p answer s"
| "cosmos_step s (ContainerAnswer p answer) = resume_container p answer s"

definition cosmos_run :: "cosmos_event list \<Rightarrow> cosmos" where
  "cosmos_run evs = foldl cosmos_step new_CosmosDB evs"

text \<open>
  The invariant of the transition system: before the first call nothing has happened;
  afterwards there is the one promise 0, one database creation, at most one container
  creation, and the only invocation of \<^verbatim>\<open>init()\<close> that can be suspended is that of promise 0.
\<close>

definition cosmos_inv :: "cosmos \<Rightarrow> bool" where
  "cosmos_inv s =
     (case initializing s of
        None \<Rightarrow> \<not> initialized s \<and> promises s = 0 \<and> databaseCreations s = 0 \<and>
                containerCreations s = 0 \<and> suspended s = Map.empty \<and> returned s = []
      | Some p \<Rightarrow> p = 0 \<and> promises s = 1 \<and> databaseCreations s = 1 \<and>
                (\<forall>q. q \<noteq> 0 \<longrightarrow> suspended s q = None) \<and>
                (case suspended s 0 of
                   None \<Rightarrow> containerCreations s \<le> 1
                 | Some AwaitDatabase \<Rightarrow> containerCreations s = 0 \<and> \<not> initialized s
                 | Some (AwaitContainer d) \<Rightarrow> containerCreations s = 1 \<and> \<not> initialized s) \<and>
                set (returned s) \<subseteq> {Immediately, ThePromise 0})"

section \<open>Observations on a run\<close>

text \<open>
  A run of a handler leaves a list of events. An embedding call of the run has failed
  when \<^verbatim>\<open>generateTextVector\<close>, on the text of that call and after the events before
  it, ends with an error: the request itself failed, or the answer did not have the
  expected members. \<open>embedding_inputs\<close> lists the texts sent to the embedding endpoint, and
  \<open>stored_field k\<close> the member \<^verbatim>\<open>k\<close> of each document passed to the store's create call.
\<close>

fun failed_embedding :: "env \<Rightarrow> event list \<Rightarrow> event list \<Rightarrow> bool" where
  "failed_embedding w hist [] = False"
| "failed_embedding w hist (ev # rest) =
     ((case ev of
         Called (EmbeddingPost t) \<Rightarrow> isl (fst (generateTextVector w t hist))
       | _ \<Rightarrow> False)
      \<or> failed_embedding w (hist @ [ev]) rest)"

fun embedding_inputs :: "event list \<Rightarrow> json list" where
  "embedding_inputs [] = []"
| "embedding_inputs (Called (EmbeddingPost t) # rest) = t # embedding_inputs rest"
| "embedding_inputs (_ # rest) = embedding_inputs rest"

fun stored_field :: "string \<Rightarrow> event list \<Rightarrow> json list" where
  "stored_field k [] = []"
| "stored_field k (Called (ItemsCreate doc) # rest) = field_of doc k # stored_field k rest"
| "stored_field k (_ # rest) = stored_field k rest"



section \<open>Example environments\<close>

text \<open>
  Concrete environments on which the handlers are run in the examples below. In
  \<open>healthy\<close> the embedding endpoint answers every text with a two-component vector, the
  store echoes a created document, finds no document on a point read and no match on
  a query.
\<close>

definition healthy :: env where
  "healthy =
     \<lparr>respond = (\<lambda>tr c. case c of
          EmbeddingPost t \<Rightarrow>
            Inr (JObj [(''data'', JArr [JObj [(''embedding'', JArr [JNum (Fin 1), JNum (Fin 0)])]])])
        | ItemsCreate doc \<Rightarrow> Inr (JObj [(''resource'', doc)])
        | ItemRead i pk \<Rightarrow> Inr (JObj [(''statusCode'', JNum (Fin 404))])
        | ItemsQuery q ps \<Rightarrow> Inr (JObj [(''resources'', JArr [])])),
      validUrl = (\<lambda>s. take 8 s = ''https://''),
      randomBits = 0\<rparr>"

text \<open>The same, with the embedding endpoint refusing every connection.\<close>

definition embedding_down :: env where
  "embedding_down =
     healthy\<lparr>respond := (\<lambda>tr c. case c of
          EmbeddingPost t \<Rightarrow> Inl (Error (JStr ''ECONNREFUSED'') ''connect ECONNREFUSED'')
        | _ \<Rightarrow> respond healthy tr c)\<rparr>"

text \<open>The embedding endpoint answers with a string where the vector should be.\<close>

definition embedding_garbled :: env where
  "embedding_garbled =
     healthy\<lparr>respond := (\<lambda>tr c. case c of
          EmbeddingPost t \<Rightarrow>
            Inr (JObj [(''data'', JArr [JObj [(''embedding'', JStr ''not a vector'')]])])
        | _ \<Rightarrow> respond healthy tr c)\<rparr>"



text \<open>
  The embedding endpoint answers while fewer than \<open>n\<close> events have happened in the run,
  and refuses with 429 from then on.
\<close>

definition embedding_fails_after :: "nat \<Rightarrow> env" where
  "embedding_fails_after n =
     healthy\<lparr>respond := (\<lambda>tr c. case c of
          EmbeddingPost t \<Rightarrow>
            if length tr < n then respond healthy tr c
            else Inl (Error (JNum (Fin 429)) ''Too Many Requests'')
        | _ \<Rightarrow> respond healthy tr c)\<rparr>"

text \<open>
  The create request of \<^verbatim>\<open>app.http\<close> (texts shortened), and the same with a string for the
  price, a number among the tags, and a \<^verbatim>\<open>dimensions\<close> object with a number for the weight,
  no height and \<^verbatim>\<open>null\<close> for the depth.
\<close>

definition sample_product :: json where
  "sample_product = JObj
     [(''name'', JStr ''Wireless Charging Pad''),
      (''brand'', JStr ''ChargeWave''),
      (''sku'', JStr ''SKU-1010''),
      (''category'', JStr ''Mobile Accessories''),
      (''price'', JNum (Fin (2999 / 100))),
      (''currency'', JStr ''USD''),
      (''stock'', JNum (Fin 450)),
      (''description'', JStr ''Conveniently charge your devices''),
      (''features'', JStr ''Qi-Compatible, Fast Charging''),
      (''rating'', JNum (Fin (43 / 10))),
      (''reviewsCount'', JNum (Fin 1340)),
      (''tags'', JArr [JStr ''charging'', JStr ''wireless'']),
      (''imageUrl'', JStr ''https://example.com/images/products/SKU-1010.jpg''),
      (''manufacturer'', JStr ''ChargeWave Ltd.''),
      (''model'', JStr ''CW-WCP300''),
      (''releaseDate'', JStr ''2023-07-05''),
      (''warranty'', JStr ''1 year''),
      (''dimensions'', JObj [(''weight'', JStr ''200g''), (''width'', JStr ''10cm''),
                            (''height'', JStr ''1cm''), (''depth'', JStr ''10cm'')]),
      (''color'', JStr ''White''),
      (''material'', JStr ''Plastic''),
      (''origin'', JStr ''South Korea'')]"

definition malformed_product :: json where
  "malformed_product =
     set_prop (set_prop (set_prop sample_product ''price'' (JStr ''29.99''))
       ''tags'' (JArr [JStr ''charging'', JNum (Fin 7)]))
       ''dimensions'' (JObj [(''weight'', JNum (Fin 200)), (''width'', JStr ''10cm''), (''depth'', JNull)])"




definition sparse_product :: json where
  "sparse_product =
     set_prop (set_prop sample_product ''description'' (JStr [])) ''tags'' (JArr [])"

definition sample_document :: json where
  "sample_document =
     set_prop (set_prop (set_prop (set_prop sample_product
        ''id'' (JStr ''00000000-0000-4000-8000-000000000000''))
        ''descriptionVector'' (JArr [JNum (Fin 1), JNum (Fin 0)]))
        ''tagsVector'' (JArr [JNum (Fin 1), JNum (Fin 0)]))
        ''featuresVector'' (JArr [JNum (Fin 1), JNum (Fin 0)])"

definition sparse_document :: json where
  "sparse_document =
     set_prop (set_prop sparse_product
        ''id'' (JStr ''00000000-0000-4000-8000-000000000000''))
        ''featuresVector'' (JArr [JNum (Fin 1), JNum (Fin 0)])"

section \<open>Properties\<close>

subsection \<open>Basic facts\<close>

lemmas io_defs = io_return_def io_throw_def io_lift_def io_bind_def io_catch_def await_def
  logger_error_def reply_def

lemmas search_defs =
  ProductService_searchProductsByTagsVector_def ProductService_searchProductsByFeaturesVector_def
  ProductService_searchProductsByDescriptionVector_def

lemmas eval_defs = io_defs search_defs searchProductsByTagsVector_def
  searchProductsByFeaturesVector_def searchProductsByDescriptionVector_def
  generateTextVector_def searchByVector_def topResults_def safeParse_def tagsSchema_def
  featuresSchema_def healthy_def embedding_down_def success_body_def message_body_def

lemma get_field_of: "get b k = Inr x \<Longrightarrow> x = field_of b k"
  by (cases b) auto

lemma generateTextVector_events:
  "snd (generateTextVector w t tr) = tr @ [Called (EmbeddingPost t)]"
  by (simp add: generateTextVector_def io_defs split: sum.splits prod.splits)

lemma generateTextVector_eventsD:
  "generateTextVector w t tr = (r, tr') \<Longrightarrow> tr' = tr @ [Called (EmbeddingPost t)]"
  using generateTextVector_events[of w t tr] by simp

lemma searchByVector_events:
  "snd (searchByVector w f v t tr) =
     tr @ [Called (ItemsQuery (SelectTopByDistance f)
             [(''@queryVector'', v), (''@top'', if t = JUndefined then JNum (Fin 10) else t)])]"
  by (simp add: searchByVector_def io_defs split: sum.splits prod.splits)

lemma searchByVector_eventsD:
  "searchByVector w f v t tr = (r, tr') \<Longrightarrow>
     tr' = tr @ [Called (ItemsQuery (SelectTopByDistance f)
             [(''@queryVector'', v), (''@top'', if t = JUndefined then JNum (Fin 10) else t)])]"
  using searchByVector_events[of w f v t tr] by simp

subsection \<open>Failures of the embedding call in the search handlers\<close>

text \<open>
  C1. The search handlers call the embedding client before their \<^verbatim>\<open>try\<close> block. With
  the embedding endpoint down, each of the three handlers rejects with the transport
  error after the one embedding call: no response is sent, and nothing is logged.
\<close>

theorem search_embedding_failure:
  "searchProductsByDescriptionVector embedding_down
     (JObj [(''queryDescription'', JStr ''smart lighting'')]) [] =
     (Inl (Error (JStr ''ECONNREFUSED'') ''connect ECONNREFUSED''),
      [Called (EmbeddingPost (JStr ''smart lighting''))])
   \<and> searchProductsByTagsVector embedding_down
       (JObj [(''queryTags'', JArr [JStr ''smart'', JStr ''tv''])]) [] =
     (Inl (Error (JStr ''ECONNREFUSED'') ''connect ECONNREFUSED''),
      [Called (EmbeddingPost (JStr ''smart tv''))])
   \<and> searchProductsByFeaturesVector embedding_down
       (JObj [(''queryFeatures'', JArr [JStr ''Voice'', JStr ''Remote''])]) [] =
     (Inl (Error (JStr ''ECONNREFUSED'') ''connect ECONNREFUSED''),
      [Called (EmbeddingPost (JStr ''Voice Remote''))])"
  by (simp add: eval_defs)

subsection \<open>The schema parser\<close>

lemma map_map_eqI: "(\<And>x. x \<in> set xs \<Longrightarrow> g (f x) = h x) \<Longrightarrow> map g (map f xs) = map h xs"
  by (induction xs) auto

lemma enumerate_snd_in: "ix \<in> set (enumerate n xs) \<Longrightarrow> snd ix \<in> set xs"
  by (cases ix) (auto simp: in_set_enumerate_eq)

lemma in_enumerate: "x \<in> set xs \<Longrightarrow> \<exists>i. (i, x) \<in> set (enumerate 0 xs)"
proof -
  assume "x \<in> set xs"
  then obtain i where "i < length xs" "xs ! i = x" by (auto simp: in_set_conv_nth)
  then have "(i, x) \<in> set (enumerate 0 xs)" by (simp add: in_set_enumerate_eq)
  then show ?thesis ..
qed

lemma concat_empty_iff: "concat xss = [] \<longleftrightarrow> (\<forall>xs \<in> set xss. xs = [])"
  by (induction xss) auto

lemma array_parse:
  "parse u (ZArray s) p (JArr xs) =
     (concat (map (\<lambda>ix. fst (parse u s (p @ [Idx (fst ix)]) (snd ix))) (enumerate 0 xs)),
      JArr (map (\<lambda>ix. snd (parse u s (p @ [Idx (fst ix)]) (snd ix))) (enumerate 0 xs)))"
  by (simp add: Let_def case_prod_beta comp_def del: parse.simps(1,2,4,5))

lemma array_ok_iff:
  "fst (parse u (ZArray s) p v) = [] \<longleftrightarrow>
     (\<exists>xs. v = JArr xs \<and> (\<forall>ix \<in> set (enumerate 0 xs). fst (parse u s (p @ [Idx (fst ix)]) (snd ix)) = []))"
proof (cases v)
  case (JArr xs)
  have "fst (parse u (ZArray s) p (JArr xs)) = [] \<longleftrightarrow>
     (\<forall>ix \<in> set (enumerate 0 xs). fst (parse u s (p @ [Idx (fst ix)]) (snd ix)) = [])"
    unfolding array_parse fst_conv concat_empty_iff by (simp del: parse.simps)
  then show ?thesis using JArr by (simp del: parse.simps)
qed (simp_all add: invalid_type_def del: parse.simps(1,2,4,5))


lemma parse_flat_id:
  "flat s \<Longrightarrow> fst (parse u s p v) = [] \<Longrightarrow> snd (parse u s p v) = v"
proof (induction u s p v rule: parse.induct)
  case (1 u checks p v)
  then show ?case by (cases v) auto
next
  case (2 u p v)
  then show ?case by (cases v) (auto split: if_splits)
next
  case (3 u s p v)
  from "3.prems"(2) obtain xs where v: "v = JArr xs"
    and e: "\<forall>ix \<in> set (enumerate 0 xs). fst (parse u s (p @ [Idx (fst ix)]) (snd ix)) = []"
    unfolding array_ok_iff by blast
  have "snd (parse u s (p @ [Idx (fst ix)]) (snd ix)) = snd ix" if m: "ix \<in> set (enumerate 0 xs)" for ix
  proof -
    obtain i x where ix: "ix = (i, x)" by (cases ix)
    from e m ix have "fst (parse u s (p @ [Idx i]) x) = []" by auto
    with "3.IH"[OF v m[unfolded ix]] "3.prems"(1) show ?thesis using ix by simp
  qed
  then have "map (\<lambda>ix. snd (parse u s (p @ [Idx (fst ix)]) (snd ix))) (enumerate 0 xs) = map snd (enumerate 0 xs)"
    by (intro map_cong) auto
  then show ?case unfolding v array_parse by simp
next
  case (4 u s p v)
  then show ?case by (auto split: if_splits)
next
  case (5 u shape p v)
  then show ?case by simp
qed

lemma all_strings: "(\<forall>x\<in>set xs. \<exists>s. x = JStr s) \<Longrightarrow> map JStr (map str_of xs) = xs"
  by (induction xs) auto

lemma string_ok: "fst (parse u (ZString cs) p x) = [] \<Longrightarrow> \<exists>s. x = JStr s"
  by (cases x) (simp_all add: invalid_type_def)

lemma strings_parse:
  "fst (parse u (ZArray (ZString [])) p v) = [] \<longleftrightarrow> (\<exists>ss. v = JArr (map JStr ss))"
proof
  assume "fst (parse u (ZArray (ZString [])) p v) = []"
  then obtain xs where v: "v = JArr xs"
    and e: "\<forall>ix \<in> set (enumerate 0 xs). fst (parse u (ZString []) (p @ [Idx (fst ix)]) (snd ix)) = []"
    unfolding array_ok_iff by blast
  have "\<exists>s. x = JStr s" if "x \<in> set xs" for x
  proof -
    from in_enumerate[OF that] obtain i where m: "(i, x) \<in> set (enumerate 0 xs)" ..
    have "fst (parse u (ZString []) (p @ [Idx (fst (i, x))]) (snd (i, x))) = []"
      by (rule bspec[OF e m])
    then have "fst (parse u (ZString []) (p @ [Idx i]) x) = []" by (simp only: fst_conv snd_conv)
    then show ?thesis by (rule string_ok)
  qed
  then have "map JStr (map str_of xs) = xs"
    by (intro all_strings) blast
  then have "v = JArr (map JStr (map str_of xs))" using v by simp
  then show "\<exists>ss. v = JArr (map JStr ss)" ..
next
  assume "\<exists>ss. v = JArr (map JStr ss)"
  then obtain ss where v: "v = JArr (map JStr ss)" by blast
  have "fst (parse u (ZString []) (p @ [Idx (fst ix)]) (snd ix)) = []"
    if "ix \<in> set (enumerate 0 (map JStr ss))" for ix
  proof -
    from enumerate_snd_in[OF that] obtain s where "snd ix = JStr s" by auto
    then show ?thesis by simp
  qed
  then show "fst (parse u (ZArray (ZString [])) p v) = []"
    unfolding array_ok_iff v by blast
qed

lemma tags_safeParse:
  "safeParse u tagsSchema v =
     (case v of
        JObj kvs \<Rightarrow>
          (if \<exists>ss. lookup kvs ''tags'' = JArr (map JStr ss)
           then Inr (JObj [(''tags'', lookup kvs ''tags'')])
           else Inl (fst (parse u (ZArray (ZString [])) [Key ''tags''] (lookup kvs ''tags''))))
      | _ \<Rightarrow> Inl [invalid_type ''object'' [] v])"
proof (cases v)
  case (JObj kvs)
  let ?r = "parse u (ZArray (ZString [])) [Key ''tags''] (lookup kvs ''tags'')"
  have unfold: "parse u tagsSchema [] (JObj kvs) =
      (fst ?r, JObj (map (\<lambda>(k, r). (k, snd r))
                      (filter (\<lambda>(k, r). snd r \<noteq> JUndefined \<or> k \<in> fst ` set kvs) [(''tags'', ?r)])))"
    by (simp add: tagsSchema_def Let_def del: parse.simps(1,2,3,4))
  show ?thesis
  proof (cases "\<exists>ss. lookup kvs ''tags'' = JArr (map JStr ss)")
    case True
    then have f: "fst ?r = []" using strings_parse by blast
    then have "snd ?r = lookup kvs ''tags''" by (intro parse_flat_id) auto
    with f True JObj unfold show ?thesis
      by (auto simp: safeParse_def simp del: parse.simps)
  next
    case False
    then have "fst ?r \<noteq> []" using strings_parse by blast
    with False JObj unfold show ?thesis
      by (auto simp: safeParse_def simp del: parse.simps)
  qed
qed (auto simp: safeParse_def tagsSchema_def)

lemma tags_success_iff:
  "success (safeParse u tagsSchema v) \<longleftrightarrow> (\<exists>kvs ss. v = JObj kvs \<and> lookup kvs ''tags'' = JArr (map JStr ss))"
  by (cases v) (auto simp: tags_safeParse)

lemma tags_data_truthy: "truthy (data (safeParse u tagsSchema v)) = success (safeParse u tagsSchema v)"
  by (cases v) (auto simp: tags_safeParse)

lemma features_is_tags: "featuresSchema = tagsSchema"
  by (simp add: featuresSchema_def tagsSchema_def)

lemma object_parse:
  "parse u (ZObject shape) p (JObj kvs) =
     (concat (map (\<lambda>ks. fst (parse u (snd ks) (p @ [Key (fst ks)]) (lookup kvs (fst ks)))) shape),
      JObj (map (\<lambda>ks. (fst ks, snd (parse u (snd ks) (p @ [Key (fst ks)]) (lookup kvs (fst ks)))))
             (filter (\<lambda>ks. snd (parse u (snd ks) (p @ [Key (fst ks)]) (lookup kvs (fst ks))) \<noteq> JUndefined
                          \<or> fst ks \<in> fst ` set kvs) shape)))"
  by (simp add: Let_def case_prod_beta comp_def filter_map del: parse.simps(1,2,3,4))

lemma object_issues:
  "set (fst (parse u (ZObject shape) p (JObj kvs))) =
     (\<Union>ks \<in> set shape. set (fst (parse u (snd ks) (p @ [Key (fst ks)]) (lookup kvs (fst ks)))))"
  unfolding object_parse by simp

lemma object_ok_iff:
  "fst (parse u (ZObject shape) p v) = [] \<longleftrightarrow>
     (\<exists>kvs. v = JObj kvs \<and>
        (\<forall>ks \<in> set shape. fst (parse u (snd ks) (p @ [Key (fst ks)]) (lookup kvs (fst ks))) = []))"
proof (cases v)
  case (JObj kvs)
  have "fst (parse u (ZObject shape) p (JObj kvs)) = [] \<longleftrightarrow>
     (\<forall>ks \<in> set shape. fst (parse u (snd ks) (p @ [Key (fst ks)]) (lookup kvs (fst ks))) = [])"
    unfolding object_parse fst_conv concat_empty_iff by (simp del: parse.simps)
  then show ?thesis using JObj by (simp del: parse.simps)
qed (simp_all add: invalid_type_def del: parse.simps(1,2,3,4))

lemma array_issues:
  "set (fst (parse u (ZArray s) p (JArr xs))) =
     (\<Union>ix \<in> set (enumerate 0 xs). set (fst (parse u s (p @ [Idx (fst ix)]) (snd ix))))"
  unfolding array_parse by simp

lemma run_check_issue: "i \<in> set (run_check u p s c) \<Longrightarrow> path i = p \<and> issue_message i \<noteq> []"
  by (cases c) (auto split: if_splits)

lemma invalid_type_issue: "path (invalid_type e p v) = p \<and> issue_message (invalid_type e p v) \<noteq> []"
  by (simp add: invalid_type_def)

lemma parse_issue:
  "i \<in> set (fst (parse u s p v)) \<Longrightarrow> (\<exists>rest. path i = p @ rest) \<and> issue_message i \<noteq> []"
proof (induction u s p v arbitrary: i rule: parse.induct)
  case (1 u checks p v)
  then show ?case by (cases v) (auto simp: invalid_type_issue dest: run_check_issue)
next
  case (2 u p v)
  then show ?case by (cases v) (auto simp: invalid_type_issue split: if_splits)
next
  case (3 u s p v)
  show ?case
  proof (cases v)
    case (JArr xs)
    with "3.prems" obtain ix where m: "ix \<in> set (enumerate 0 xs)"
      and i: "i \<in> set (fst (parse u s (p @ [Idx (fst ix)]) (snd ix)))"
      unfolding JArr array_issues by (elim UN_E)
    obtain k x where ix: "ix = (k, x)" by (cases ix)
    from "3.IH"[OF JArr m[unfolded ix]] i ix
    have "(\<exists>rest. path i = (p @ [Idx k]) @ rest) \<and> issue_message i \<noteq> []" by simp
    then show ?thesis by auto
  qed (use "3.prems" in \<open>auto simp: invalid_type_issue\<close>)
next
  case (4 u s p v)
  then show ?case by (auto split: if_splits)
next
  case (5 u shape p v)
  show ?case
  proof (cases v)
    case (JObj kvs)
    with "5.prems" obtain ks where m: "ks \<in> set shape"
      and i: "i \<in> set (fst (parse u (snd ks) (p @ [Key (fst ks)]) (lookup kvs (fst ks))))"
      unfolding JObj object_issues by (elim UN_E)
    obtain k s where ks: "ks = (k, s)" by (cases ks)
    from "5.IH"[OF JObj m[unfolded ks]] i ks
    have "(\<exists>rest. path i = (p @ [Key k]) @ rest) \<and> issue_message i \<noteq> []" by simp
    then show ?thesis by auto
  qed (use "5.prems" in \<open>auto simp: invalid_type_issue\<close>)
qed

lemma malformed_parse:
  "safeParse (validUrl healthy) productSchema malformed_product =
     Inl [Issue [Key ''price''] ''Expected number, received string'',
          Issue [Key ''tags'', Idx 1] ''Expected string, received number'',
          Issue [Key ''dimensions'', Key ''weight''] ''Expected string, received number'',
          Issue [Key ''dimensions'', Key ''height''] ''Required'',
          Issue [Key ''dimensions'', Key ''depth''] ''Expected string, received null'']"
  by (simp add: safeParse_def productSchema_def productShape_def dimensionsShape_def
        malformed_product_def sample_product_def healthy_def invalid_type_def Let_def enumerate_eq_zip)

lemma sample_parse:
  "safeParse (validUrl healthy) productSchema sample_product = Inr sample_product"
  by (simp add: safeParse_def productSchema_def productShape_def dimensionsShape_def
        sample_product_def healthy_def invalid_type_def Let_def enumerate_eq_zip)

subsection \<open>The violated fields and the issues of the parser\<close>

lemma checks_paths:
  "path ` set (concat (map (run_check u p s) cs)) =
     (if list_all (\<lambda>c. check_ok u c s) cs then {} else {p})"
proof (induction cs)
  case Nil
  show ?case by simp
next
  case (Cons c cs)
  show ?case
  proof (cases c)
    case Uuid
    with Cons show ?thesis by (auto simp: image_Un)
  next
    case Url
    with Cons show ?thesis by (auto simp: image_Un)
  qed
qed

lemma violated_array:
  "set (violated_fields u (ZArray s) p (JArr xs)) =
     (\<Union>ix \<in> set (enumerate 0 xs). set (violated_fields u s (p @ [Idx (fst ix)]) (snd ix)))"
  by (simp add: case_prod_beta del: violated_fields.simps(1,2,4,5))

lemma violated_object:
  "set (violated_fields u (ZObject shape) p (JObj kvs)) =
     (\<Union>ks \<in> set shape. set (violated_fields u (snd ks) (p @ [Key (fst ks)]) (lookup kvs (fst ks))))"
  by (simp add: case_prod_beta del: violated_fields.simps(1,2,3,4))

lemma parse_paths:
  "path ` set (fst (parse u s p v)) = set (violated_fields u s p v)"
proof (induction u s p v rule: parse.induct)
  case (1 u checks p v)
  show ?case
  proof (cases v)
    case (JStr s)
    then show ?thesis using checks_paths[of u p s checks] by simp
  qed (simp_all add: invalid_type_issue)
next
  case (2 u p v)
  show ?case
  proof (cases v)
    case (JNum n)
    then show ?thesis by (simp add: invalid_type_issue)
  qed (simp_all add: invalid_type_issue)
next
  case (3 u s p v)
  show ?case
  proof (cases v)
    case (JArr xs)
    have "path ` set (fst (parse u s (p @ [Idx (fst ix)]) (snd ix))) =
          set (violated_fields u s (p @ [Idx (fst ix)]) (snd ix))"
      if m: "ix \<in> set (enumerate 0 xs)" for ix
    proof -
      obtain i x where ix: "ix = (i, x)" by (cases ix)
      from "3.IH"[OF JArr m[unfolded ix]] show ?thesis unfolding ix by (simp only: fst_conv snd_conv)
    qed
    then have "(\<Union>ix \<in> set (enumerate 0 xs). path ` set (fst (parse u s (p @ [Idx (fst ix)]) (snd ix)))) =
        (\<Union>ix \<in> set (enumerate 0 xs). set (violated_fields u s (p @ [Idx (fst ix)]) (snd ix)))"
      by (rule SUP_cong[OF refl])
    then show ?thesis unfolding JArr violated_array array_issues image_UN .
  qed (simp_all add: invalid_type_issue)
next
  case (4 u s p v)
  then show ?case by simp
next
  case (5 u shape p v)
  show ?case
  proof (cases v)
    case (JObj kvs)
    have "path ` set (fst (parse u (snd ks) (p @ [Key (fst ks)]) (lookup kvs (fst ks)))) =
          set (violated_fields u (snd ks) (p @ [Key (fst ks)]) (lookup kvs (fst ks)))"
      if m: "ks \<in> set shape" for ks
    proof -
      obtain k s where ks: "ks = (k, s)" by (cases ks)
      from "5.IH"[OF JObj m[unfolded ks]] show ?thesis unfolding ks by (simp only: fst_conv snd_conv)
    qed
    then have "(\<Union>ks \<in> set shape. path ` set (fst (parse u (snd ks) (p @ [Key (fst ks)]) (lookup kvs (fst ks))))) =
        (\<Union>ks \<in> set shape. set (violated_fields u (snd ks) (p @ [Key (fst ks)]) (lookup kvs (fst ks))))"
      by (rule SUP_cong[OF refl])
    then show ?thesis unfolding JObj violated_object object_issues image_UN .
  qed (simp_all add: invalid_type_issue)
qed

lemma fails_iff_violated:
  "(\<exists>errs. safeParse u s v = Inl errs) \<longleftrightarrow> violated_fields u s [] v \<noteq> []"
proof -
  have "(\<exists>errs. safeParse u s v = Inl errs) \<longleftrightarrow> fst (parse u s [] v) \<noteq> []"
    by (auto simp: safeParse_def split: prod.splits)
  also have "\<dots> \<longleftrightarrow> path ` set (fst (parse u s [] v)) \<noteq> {}" by simp
  also have "\<dots> \<longleftrightarrow> violated_fields u s [] v \<noteq> []" unfolding parse_paths by simp
  finally show ?thesis .
qed

subsection \<open>The top-K bound\<close>

lemma topResults_eq:
  "topResults t = (if (\<exists>n::nat. 0 < n \<and> t = JNum (Fin (of_nat n))) then t else JNum (Fin 10))"
proof (cases "\<exists>n::nat. 0 < n \<and> t = JNum (Fin (of_nat n))")
  case True
  then obtain n :: nat where "0 < n" "t = JNum (Fin (of_nat n))" by blast
  then show ?thesis by (auto simp: topResults_def)
next
  case False
  have "\<not> (truthy t \<and> Number_isInteger t \<and> greater_than_zero t)"
  proof
    assume a: "truthy t \<and> Number_isInteger t \<and> greater_than_zero t"
    then obtain q where t: "t = JNum (Fin q)" by (cases t rule: Number_isInteger.cases) auto
    with a have q: "of_int \<lfloor>q\<rfloor> = q" "q > 0" by auto
    then have "\<lfloor>q\<rfloor> > 0" by linarith
    then have "q = of_nat (nat \<lfloor>q\<rfloor>)" "0 < nat \<lfloor>q\<rfloor>" using q by (auto simp: of_nat_nat)
    with t False show False by blast
  qed
  with False show ?thesis by (auto simp: topResults_def)
qed

lemma topResults_defined: "topResults t \<noteq> JUndefined"
  by (cases t) (auto simp: topResults_def)

lemma tags_query:
  assumes "Called (ItemsQuery sq ps) \<in> set (snd (searchProductsByTagsVector w b []))"
  shows "lookup ps ''@top'' = topResults (field_of b ''top'')"
  using assms
  by (auto simp: searchProductsByTagsVector_def search_defs io_defs Let_def topResults_defined
       dest!: get_field_of generateTextVector_eventsD searchByVector_eventsD
       split: sum.splits prod.splits if_splits)

lemma features_query:
  assumes "Called (ItemsQuery sq ps) \<in> set (snd (searchProductsByFeaturesVector w b []))"
  shows "lookup ps ''@top'' = topResults (field_of b ''top'')"
  using assms
  by (auto simp: searchProductsByFeaturesVector_def search_defs io_defs Let_def topResults_defined
       dest!: get_field_of generateTextVector_eventsD searchByVector_eventsD
       split: sum.splits prod.splits if_splits)

lemma description_query:
  assumes "Called (ItemsQuery sq ps) \<in> set (snd (searchProductsByDescriptionVector w b []))"
  shows "lookup ps ''@top'' = topResults (field_of b ''top'')"
  using assms
  by (auto simp: searchProductsByDescriptionVector_def search_defs io_defs Let_def topResults_defined
       dest!: get_field_of generateTextVector_eventsD searchByVector_eventsD
       split: sum.splits prod.splits if_splits)

lemma tags_run_example:
  "searchProductsByTagsVector healthy
     (JObj [(''queryTags'', JArr [JStr ''smart'', JStr ''tv'']), (''top'', JNum (Fin 5))]) [] =
   (Inr \<lparr>status = 200, body = JObj [(''status'', JStr ''success''), (''data'', JArr [])]\<rparr>,
    [Called (EmbeddingPost (JStr ''smart tv'')),
     Called (ItemsQuery (SelectTopByDistance TagsVector)
       [(''@queryVector'', JArr [JNum (Fin 1), JNum (Fin 0)]), (''@top'', JNum (Fin 5))])])"
  by (simp add: eval_defs)

lemma get_top: "get b k = Inr x \<Longrightarrow> get b k' = Inr (field_of b k')"
  by (cases b) (simp_all add: TypeError_def)

lemma generateTextVector_run:
  "fst (generateTextVector w t tr) = Inr v \<Longrightarrow>
   generateTextVector w t tr = (Inr v, tr @ [Called (EmbeddingPost t)])"
  using generateTextVector_events[of w t tr] by (cases "generateTextVector w t tr") simp

lemma search_call:
  "take (Suc (length tr))
     (snd (io_catch
        (io_bind (searchByVector w f v (topResults t)) (\<lambda>results. reply 200 (success_body results)))
        (\<lambda>error. io_bind (logger_error m (message error)) (\<lambda>_. reply 500 (message_body m'))) tr)) =
   tr @ [Called (ItemsQuery (SelectTopByDistance f) [(''@queryVector'', v), (''@top'', topResults t)])]"
  by (simp add: searchByVector_def io_defs topResults_defined split: sum.splits prod.splits)

lemma description_call:
  assumes "get b ''queryDescription'' = Inr q" and "fst (generateTextVector w q []) = Inr v"
  shows "take 2 (snd (searchProductsByDescriptionVector w b [])) =
     [Called (EmbeddingPost q),
      Called (ItemsQuery (SelectTopByDistance DescriptionVector)
        [(''@queryVector'', v), (''@top'', topResults (field_of b ''top''))])]"
proof -
  note g = generateTextVector_run[OF assms(2)]
  note t = get_top[OF assms(1), of "''top''"]
  have "searchProductsByDescriptionVector w b [] =
      io_catch
        (io_bind (searchByVector w DescriptionVector v (topResults (field_of b ''top'')))
           (\<lambda>results. reply 200 (success_body results)))
        (\<lambda>error. io_bind (logger_error ''Error searching products by description:'' (message error))
           (\<lambda>_. reply 500 (message_body ''Internal Server Error''))) [Called (EmbeddingPost q)]"
    unfolding searchProductsByDescriptionVector_def search_defs
    by (simp add: io_bind_def io_lift_def assms(1) t g)
  then show ?thesis
    using search_call[of "[Called (EmbeddingPost q)]" w DescriptionVector v "field_of b ''top''"]
    by (simp add: numeral_2_eq_2)
qed

lemma strings_join: "join_space (JArr (map JStr ss)) = join_with '' '' ss"
  by (simp add: comp_def)

lemma tags_accepts:
  "safeParse u tagsSchema (JObj [(''tags'', JArr (map JStr ss))]) = Inr (JObj [(''tags'', JArr (map JStr ss))])"
  unfolding tags_safeParse by auto

lemma tags_call:
  assumes "get b ''queryTags'' = Inr (JArr (map JStr ss))"
    and "fst (generateTextVector w (JStr (join_with '' '' ss)) []) = Inr v"
  shows "take 2 (snd (searchProductsByTagsVector w b [])) =
     [Called (EmbeddingPost (JStr (join_with '' '' ss))),
      Called (ItemsQuery (SelectTopByDistance TagsVector)
        [(''@queryVector'', v), (''@top'', topResults (field_of b ''top''))])]"
proof -
  note g = generateTextVector_run[OF assms(2)]
  note t = get_top[OF assms(1), of "''top''"]
  have "searchProductsByTagsVector w b [] =
      io_catch
        (io_bind (searchByVector w TagsVector v (topResults (field_of b ''top'')))
           (\<lambda>results. reply 200 (success_body results)))
        (\<lambda>error. io_bind (logger_error ''Error searching products by tags:'' (message error))
           (\<lambda>_. reply 500 (message_body ''Internal Server Error'')))
        [Called (EmbeddingPost (JStr (join_with '' '' ss)))]"
    unfolding searchProductsByTagsVector_def search_defs
    by (simp add: io_bind_def io_lift_def assms(1) t g tags_accepts strings_join
          del: join_space.simps)
  then show ?thesis
    using search_call[of "[Called (EmbeddingPost (JStr (join_with '' '' ss)))]" w TagsVector v "field_of b ''top''"]
    by (simp add: numeral_2_eq_2)
qed

lemma features_call:
  assumes "get b ''queryFeatures'' = Inr (JArr (map JStr ss))"
    and "fst (generateTextVector w (JStr (join_with '' '' ss)) []) = Inr v"
  shows "take 2 (snd (searchProductsByFeaturesVector w b [])) =
     [Called (EmbeddingPost (JStr (join_with '' '' ss))),
      Called (ItemsQuery (SelectTopByDistance FeaturesVector)
        [(''@queryVector'', v), (''@top'', topResults (field_of b ''top''))])]"
proof -
  note g = generateTextVector_run[OF assms(2)]
  note t = get_top[OF assms(1), of "''top''"]
  have "searchProductsByFeaturesVector w b [] =
      io_catch
        (io_bind (searchByVector w FeaturesVector v (topResults (field_of b ''top'')))
           (\<lambda>results. reply 200 (success_body results)))
        (\<lambda>error. io_bind (logger_error ''Error searching products by features:'' (message error))
           (\<lambda>_. reply 500 (message_body ''Internal Server Error'')))
        [Called (EmbeddingPost (JStr (join_with '' '' ss)))]"
    unfolding searchProductsByFeaturesVector_def search_defs
    by (simp add: io_bind_def io_lift_def assms(1) t g tags_accepts strings_join features_is_tags
          del: join_space.simps)
  then show ?thesis
    using search_call[of "[Called (EmbeddingPost (JStr (join_with '' '' ss)))]" w FeaturesVector v "field_of b ''top''"]
    by (simp add: numeral_2_eq_2)
qed

lemma healthy_vector:
  "fst (generateTextVector healthy t []) = Inr (JArr [JNum (Fin 1), JNum (Fin 0)])"
  by (simp add: generateTextVector_def io_defs healthy_def)

lemma not_whole: "(5 / 2 :: rat) \<noteq> of_nat n"
proof
  assume "(5 / 2 :: rat) = of_nat n"
  then have "(of_nat (2 * n) :: rat) = of_nat 5" by simp
  then have "2 * n = 5" by (simp only: of_nat_eq_iff)
  then show False by presburger
qed

text \<open>
  C7. Each of the three search handlers, once its query value is accepted and the
  embedding call has returned a vector, issues as its second call the store query with
  that vector and with the bound \<^verbatim>\<open>@top\<close>: the request's \<^verbatim>\<open>top\<close> when that is a positive
  integer, and 10 in every other case (absent, zero, negative, fractional, not a
  number). No query of any of the three handlers carries another bound.
\<close>

theorem top_bound:
  "(get req_body ''queryDescription'' = Inr q \<and> fst (generateTextVector w q []) = Inr v \<longrightarrow>
      take 2 (snd (searchProductsByDescriptionVector w req_body [])) =
        [Called (EmbeddingPost q),
         Called (ItemsQuery (SelectTopByDistance DescriptionVector)
           [(''@queryVector'', v),
            (''@top'', if (\<exists>n::nat. 0 < n \<and> field_of req_body ''top'' = JNum (Fin (of_nat n)))
                       then field_of req_body ''top'' else JNum (Fin 10))])])
   \<and> (get req_body ''queryTags'' = Inr (JArr (map JStr ss))
        \<and> fst (generateTextVector w (JStr (join_with '' '' ss)) []) = Inr v \<longrightarrow>
      take 2 (snd (searchProductsByTagsVector w req_body [])) =
        [Called (EmbeddingPost (JStr (join_with '' '' ss))),
         Called (ItemsQuery (SelectTopByDistance TagsVector)
           [(''@queryVector'', v),
            (''@top'', if (\<exists>n::nat. 0 < n \<and> field_of req_body ''top'' = JNum (Fin (of_nat n)))
                       then field_of req_body ''top'' else JNum (Fin 10))])])
   \<and> (get req_body ''queryFeatures'' = Inr (JArr (map JStr ss))
        \<and> fst (generateTextVector w (JStr (join_with '' '' ss)) []) = Inr v \<longrightarrow>
      take 2 (snd (searchProductsByFeaturesVector w req_body [])) =
        [Called (EmbeddingPost (JStr (join_with '' '' ss))),
         Called (ItemsQuery (SelectTopByDistance FeaturesVector)
           [(''@queryVector'', v),
            (''@top'', if (\<exists>n::nat. 0 < n \<and> field_of req_body ''top'' = JNum (Fin (of_nat n)))
                       then field_of req_body ''top'' else JNum (Fin 10))])])
   \<and> (Called (ItemsQuery sq ps) \<in> set (snd (searchProductsByDescriptionVector w req_body []))
        \<or> Called (ItemsQuery sq ps) \<in> set (snd (searchProductsByTagsVector w req_body []))
        \<or> Called (ItemsQuery sq ps) \<in> set (snd (searchProductsByFeaturesVector w req_body [])) \<longrightarrow>
      lookup ps ''@top'' =
        (if (\<exists>n::nat. 0 < n \<and> field_of req_body ''top'' = JNum (Fin (of_nat n)))
         then field_of req_body ''top'' else JNum (Fin 10)))"
proof (intro conjI impI)
  assume "get req_body ''queryDescription'' = Inr q \<and> fst (generateTextVector w q []) = Inr v"
  then show "take 2 (snd (searchProductsByDescriptionVector w req_body [])) =
        [Called (EmbeddingPost q),
         Called (ItemsQuery (SelectTopByDistance DescriptionVector)
           [(''@queryVector'', v),
            (''@top'', if (\<exists>n::nat. 0 < n \<and> field_of req_body ''top'' = JNum (Fin (of_nat n)))
                       then field_of req_body ''top'' else JNum (Fin 10))])]"
    using description_call[of req_body q w v] by (simp only: topResults_eq)
next
  assume "get req_body ''queryTags'' = Inr (JArr (map JStr ss))
        \<and> fst (generateTextVector w (JStr (join_with '' '' ss)) []) = Inr v"
  then show "take 2 (snd (searchProductsByTagsVector w req_body [])) =
        [Called (EmbeddingPost (JStr (join_with '' '' ss))),
         Called (ItemsQuery (SelectTopByDistance TagsVector)
           [(''@queryVector'', v),
            (''@top'', if (\<exists>n::nat. 0 < n \<and> field_of req_body ''top'' = JNum (Fin (of_nat n)))
                       then field_of req_body ''top'' else JNum (Fin 10))])]"
    using tags_call[of req_body ss w v] by (simp only: topResults_eq)
next
  assume "get req_body ''queryFeatures'' = Inr (JArr (map JStr ss))
        \<and> fst (generateTextVector w (JStr (join_with '' '' ss)) []) = Inr v"
  then show "take 2 (snd (searchProductsByFeaturesVector w req_body [])) =
        [Called (EmbeddingPost (JStr (join_with '' '' ss))),
         Called (ItemsQuery (SelectTopByDistance FeaturesVector)
           [(''@queryVector'', v),
            (''@top'', if (\<exists>n::nat. 0 < n \<and> field_of req_body ''top'' = JNum (Fin (of_nat n)))
                       then field_of req_body ''top'' else JNum (Fin 10))])]"
    using features_call[of req_body ss w v] by (simp only: topResults_eq)
next
  assume "Called (ItemsQuery sq ps) \<in> set (snd (searchProductsByDescriptionVector w req_body []))
        \<or> Called (ItemsQuery sq ps) \<in> set (snd (searchProductsByTagsVector w req_body []))
        \<or> Called (ItemsQuery sq ps) \<in> set (snd (searchProductsByFeaturesVector w req_body []))"
  then have "lookup ps ''@top'' = topResults (field_of req_body ''top'')"
    using tags_query features_query description_query by blast
  then show "lookup ps ''@top'' =
        (if (\<exists>n::nat. 0 < n \<and> field_of req_body ''top'' = JNum (Fin (of_nat n)))
         then field_of req_body ''top'' else JNum (Fin 10))"
    by (simp only: topResults_eq)
qed

theorem top_bound_witness:
  "take 2 (snd (searchProductsByDescriptionVector healthy
       (JObj [(''queryDescription'', JStr ''smart lighting''), (''top'', JNum (Fin 5))]) [])) =
     [Called (EmbeddingPost (JStr ''smart lighting'')),
      Called (ItemsQuery (SelectTopByDistance DescriptionVector)
        [(''@queryVector'', JArr [JNum (Fin 1), JNum (Fin 0)]), (''@top'', JNum (Fin 5))])]
   \<and> take 2 (snd (searchProductsByTagsVector healthy
       (JObj [(''queryTags'', JArr [JStr ''smart'', JStr ''tv''])]) [])) =
     [Called (EmbeddingPost (JStr ''smart tv'')),
      Called (ItemsQuery (SelectTopByDistance TagsVector)
        [(''@queryVector'', JArr [JNum (Fin 1), JNum (Fin 0)]), (''@top'', JNum (Fin 10))])]
   \<and> take 2 (snd (searchProductsByFeaturesVector healthy
       (JObj [(''queryFeatures'', JArr [JStr ''Voice'', JStr ''Remote'']), (''top'', JNum (Fin 0))]) [])) =
     [Called (EmbeddingPost (JStr ''Voice Remote'')),
      Called (ItemsQuery (SelectTopByDistance FeaturesVector)
        [(''@queryVector'', JArr [JNum (Fin 1), JNum (Fin 0)]), (''@top'', JNum (Fin 10))])]
   \<and> take 2 (snd (searchProductsByDescriptionVector healthy
       (JObj [(''queryDescription'', JStr ''smart lighting''), (''top'', JNum (Fin (- 3)))]) [])) =
     [Called (EmbeddingPost (JStr ''smart lighting'')),
      Called (ItemsQuery (SelectTopByDistance DescriptionVector)
        [(''@queryVector'', JArr [JNum (Fin 1), JNum (Fin 0)]), (''@top'', JNum (Fin 10))])]
   \<and> take 2 (snd (searchProductsByTagsVector healthy
       (JObj [(''queryTags'', JArr [JStr ''smart'', JStr ''tv'']), (''top'', JNum (Fin (5 / 2)))]) [])) =
     [Called (EmbeddingPost (JStr ''smart tv'')),
      Called (ItemsQuery (SelectTopByDistance TagsVector)
        [(''@queryVector'', JArr [JNum (Fin 1), JNum (Fin 0)]), (''@top'', JNum (Fin 10))])]
   \<and> take 2 (snd (searchProductsByFeaturesVector healthy
       (JObj [(''queryFeatures'', JArr [JStr ''Voice'', JStr ''Remote'']), (''top'', JStr ''5'')]) [])) =
     [Called (EmbeddingPost (JStr ''Voice Remote'')),
      Called (ItemsQuery (SelectTopByDistance FeaturesVector)
        [(''@queryVector'', JArr [JNum (Fin 1), JNum (Fin 0)]), (''@top'', JNum (Fin 10))])]
   \<and> Called (ItemsQuery (SelectTopByDistance TagsVector)
        [(''@queryVector'', JArr [JNum (Fin 1), JNum (Fin 0)]), (''@top'', JNum (Fin 5))])
       \<in> set (snd (searchProductsByTagsVector healthy
            (JObj [(''queryTags'', JArr [JStr ''smart'', JStr ''tv'']), (''top'', JNum (Fin 5))]) []))
   \<and> lookup [(''@queryVector'', JArr [JNum (Fin 1), JNum (Fin 0)]), (''@top'', JNum (Fin 5))] ''@top'' =
       field_of (JObj [(''queryTags'', JArr [JStr ''smart'', JStr ''tv'']), (''top'', JNum (Fin 5))]) ''top''"
proof -
  let ?v = "JArr [JNum (Fin 1), JNum (Fin 0)]"
  have five: "\<exists>n::nat. 0 < n \<and> (5::rat) = of_nat n"
    by (rule exI[of _ 5]) simp
  have a: "take 2 (snd (searchProductsByDescriptionVector healthy
       (JObj [(''queryDescription'', JStr ''smart lighting''), (''top'', JNum (Fin 5))]) [])) =
     [Called (EmbeddingPost (JStr ''smart lighting'')),
      Called (ItemsQuery (SelectTopByDistance DescriptionVector)
        [(''@queryVector'', ?v), (''@top'', JNum (Fin 5))])]"
    using top_bound[of "JObj [(''queryDescription'', JStr ''smart lighting''), (''top'', JNum (Fin 5))]"
        "JStr ''smart lighting''" healthy ?v, THEN conjunct1] healthy_vector five
    by simp
  have b: "take 2 (snd (searchProductsByTagsVector healthy
       (JObj [(''queryTags'', JArr [JStr ''smart'', JStr ''tv''])]) [])) =
     [Called (EmbeddingPost (JStr ''smart tv'')),
      Called (ItemsQuery (SelectTopByDistance TagsVector)
        [(''@queryVector'', ?v), (''@top'', JNum (Fin 10))])]"
    using top_bound[of "JObj [(''queryTags'', JArr [JStr ''smart'', JStr ''tv''])]"
        _ healthy ?v "[''smart'', ''tv'']", THEN conjunct2, THEN conjunct1]
      healthy_vector[of "JStr ''smart tv''"]
    by simp
  have c: "take 2 (snd (searchProductsByFeaturesVector healthy
       (JObj [(''queryFeatures'', JArr [JStr ''Voice'', JStr ''Remote'']), (''top'', JNum (Fin 0))]) [])) =
     [Called (EmbeddingPost (JStr ''Voice Remote'')),
      Called (ItemsQuery (SelectTopByDistance FeaturesVector)
        [(''@queryVector'', ?v), (''@top'', JNum (Fin 10))])]"
    using top_bound[of "JObj [(''queryFeatures'', JArr [JStr ''Voice'', JStr ''Remote'']), (''top'', JNum (Fin 0))]"
        _ healthy ?v "[''Voice'', ''Remote'']", THEN conjunct2, THEN conjunct2, THEN conjunct1]
      healthy_vector[of "JStr ''Voice Remote''"]
    by simp
  have d: "take 2 (snd (searchProductsByDescriptionVector healthy
       (JObj [(''queryDescription'', JStr ''smart lighting''), (''top'', JNum (Fin (- 3)))]) [])) =
     [Called (EmbeddingPost (JStr ''smart lighting'')),
      Called (ItemsQuery (SelectTopByDistance DescriptionVector)
        [(''@queryVector'', ?v), (''@top'', JNum (Fin 10))])]"
    using top_bound[of "JObj [(''queryDescription'', JStr ''smart lighting''), (''top'', JNum (Fin (- 3)))]"
        "JStr ''smart lighting''" healthy ?v, THEN conjunct1] healthy_vector
    by simp
  have e: "take 2 (snd (searchProductsByTagsVector healthy
       (JObj [(''queryTags'', JArr [JStr ''smart'', JStr ''tv'']), (''top'', JNum (Fin (5 / 2)))]) [])) =
     [Called (EmbeddingPost (JStr ''smart tv'')),
      Called (ItemsQuery (SelectTopByDistance TagsVector)
        [(''@queryVector'', ?v), (''@top'', JNum (Fin 10))])]"
    using top_bound[of "JObj [(''queryTags'', JArr [JStr ''smart'', JStr ''tv'']), (''top'', JNum (Fin (5 / 2)))]"
        _ healthy ?v "[''smart'', ''tv'']", THEN conjunct2, THEN conjunct1]
      healthy_vector[of "JStr ''smart tv''"] not_whole
    by simp
  have f: "take 2 (snd (searchProductsByFeaturesVector healthy
       (JObj [(''queryFeatures'', JArr [JStr ''Voice'', JStr ''Remote'']), (''top'', JStr ''5'')]) [])) =
     [Called (EmbeddingPost (JStr ''Voice Remote'')),
      Called (ItemsQuery (SelectTopByDistance FeaturesVector)
        [(''@queryVector'', ?v), (''@top'', JNum (Fin 10))])]"
    using top_bound[of "JObj [(''queryFeatures'', JArr [JStr ''Voice'', JStr ''Remote'']), (''top'', JStr ''5'')]"
        _ healthy ?v "[''Voice'', ''Remote'']", THEN conjunct2, THEN conjunct2, THEN conjunct1]
      healthy_vector[of "JStr ''Voice Remote''"]
    by simp
  have g: "Called (ItemsQuery (SelectTopByDistance TagsVector)
        [(''@queryVector'', ?v), (''@top'', JNum (Fin 5))])
       \<in> set (snd (searchProductsByTagsVector healthy
            (JObj [(''queryTags'', JArr [JStr ''smart'', JStr ''tv'']), (''top'', JNum (Fin 5))]) []))"
    by (simp add: tags_run_example)
  have h: "lookup [(''@queryVector'', ?v), (''@top'', JNum (Fin 5))] ''@top'' =
       field_of (JObj [(''queryTags'', JArr [JStr ''smart'', JStr ''tv'']), (''top'', JNum (Fin 5))]) ''top''"
    using top_bound[of "JObj [(''queryTags'', JArr [JStr ''smart'', JStr ''tv'']), (''top'', JNum (Fin 5))]"
        _ healthy _ _ "SelectTopByDistance TagsVector"
        "[(''@queryVector'', ?v), (''@top'', JNum (Fin 5))]",
        THEN conjunct2, THEN conjunct2, THEN conjunct2] g five
    by simp
  from a b c d e f g h show ?thesis by (simp only: simp_thms)
qed

subsection \<open>The two search validators\<close>

lemma tags_400_iff:
  "(\<exists>r tr. searchProductsByTagsVector w (JObj [(''queryTags'', x)]) [] = (Inr r, tr) \<and> status r = 400)
     \<longleftrightarrow> \<not> success (safeParse (validUrl w) tagsSchema (JObj [(''tags'', x)]))"
  by (auto simp: searchProductsByTagsVector_def io_defs Let_def tags_data_truthy
      split: sum.splits prod.splits)

lemma features_400_iff:
  "(\<exists>r tr. searchProductsByFeaturesVector w (JObj [(''queryFeatures'', x)]) [] = (Inr r, tr) \<and> status r = 400)
     \<longleftrightarrow> \<not> success (safeParse (validUrl w) tagsSchema (JObj [(''tags'', x)]))"
  by (auto simp: searchProductsByFeaturesVector_def io_defs Let_def features_is_tags
      split: sum.splits prod.splits)

lemma tags_400_body:
  "(\<exists>r tr. searchProductsByTagsVector w (JObj kvs) [] = (Inr r, tr) \<and> status r = 400)
     \<longleftrightarrow> \<not> (\<exists>ss. lookup kvs ''queryTags'' = JArr (map JStr ss))"
proof -
  have "(\<exists>r tr. searchProductsByTagsVector w (JObj kvs) [] = (Inr r, tr) \<and> status r = 400)
     \<longleftrightarrow> \<not> success (safeParse (validUrl w) tagsSchema (JObj [(''tags'', lookup kvs ''queryTags'')]))"
    by (auto simp: searchProductsByTagsVector_def io_defs Let_def tags_data_truthy
        split: sum.splits prod.splits)
  then show ?thesis by (simp add: tags_success_iff)
qed

lemma features_400_body:
  "(\<exists>r tr. searchProductsByFeaturesVector w (JObj kvs) [] = (Inr r, tr) \<and> status r = 400)
     \<longleftrightarrow> \<not> (\<exists>ss. lookup kvs ''queryFeatures'' = JArr (map JStr ss))"
proof -
  have "(\<exists>r tr. searchProductsByFeaturesVector w (JObj kvs) [] = (Inr r, tr) \<and> status r = 400)
     \<longleftrightarrow> \<not> success (safeParse (validUrl w) tagsSchema (JObj [(''tags'', lookup kvs ''queryFeatures'')]))"
    by (auto simp: searchProductsByFeaturesVector_def io_defs Let_def features_is_tags
        split: sum.splits prod.splits)
  then show ?thesis by (simp add: tags_success_iff)
qed

text \<open>
  The same request body, with the member \<^verbatim>\<open>queryTags\<close>, sent to both endpoints: the
  tags search accepts it and answers 200, the features search answers 400, because it
  reads its value from the member \<^verbatim>\<open>queryFeatures\<close>.
\<close>

theorem endpoints_differ:
  "searchProductsByTagsVector healthy (JObj [(''queryTags'', JArr [JStr ''smart'', JStr ''tv''])]) [] =
     (Inr \<lparr>status = 200, body = JObj [(''status'', JStr ''success''), (''data'', JArr [])]\<rparr>,
      [Called (EmbeddingPost (JStr ''smart tv'')),
       Called (ItemsQuery (SelectTopByDistance TagsVector)
         [(''@queryVector'', JArr [JNum (Fin 1), JNum (Fin 0)]), (''@top'', JNum (Fin 10))])])
   \<and> searchProductsByFeaturesVector healthy (JObj [(''queryTags'', JArr [JStr ''smart'', JStr ''tv''])]) [] =
     (Inr \<lparr>status = 400, body = JObj [(''status'', JStr ''error''), (''message'', JStr
        ''Invalid features. It should be an array of strings ie \"queryVector\" : [\"item\",\"item2\"].'')]\<rparr>,
      [])"
  by (simp add: eval_defs invalid_type_def)

text \<open>
  C10, as amended. The tags-search validator and the features-search validator give the
  same result on every input; they succeed exactly on objects whose \<^verbatim>\<open>tags\<close> member is an
  array of strings. The two handlers wrap different members of the request body before
  validating: the tags search rejects a body with 400 exactly when its \<^verbatim>\<open>queryTags\<close> is
  not an array of strings, the features search exactly when its \<^verbatim>\<open>queryFeatures\<close> is not
  an array of strings; so they reject the same query values, each under its own member
  name, and not the same bodies.
\<close>

theorem validators_equal:
  "safeParse u featuresSchema v = safeParse u tagsSchema v
   \<and> (success (safeParse u tagsSchema v) \<longleftrightarrow>
        (\<exists>kvs ss. v = JObj kvs \<and> lookup kvs ''tags'' = JArr (map JStr ss)))
   \<and> ((\<exists>r tr. searchProductsByTagsVector w (JObj [(''queryTags'', x)]) [] = (Inr r, tr) \<and> status r = 400)
        \<longleftrightarrow> (\<exists>r tr. searchProductsByFeaturesVector w (JObj [(''queryFeatures'', x)]) [] = (Inr r, tr) \<and> status r = 400))
   \<and> ((\<exists>r tr. searchProductsByTagsVector w (JObj body_members) [] = (Inr r, tr) \<and> status r = 400)
        \<longleftrightarrow> \<not> (\<exists>ss. lookup body_members ''queryTags'' = JArr (map JStr ss)))
   \<and> ((\<exists>r tr. searchProductsByFeaturesVector w (JObj body_members) [] = (Inr r, tr) \<and> status r = 400)
        \<longleftrightarrow> \<not> (\<exists>ss. lookup body_members ''queryFeatures'' = JArr (map JStr ss)))"
  using tags_success_iff[of u v] tags_400_iff[of w x] features_400_iff[of w x]
    tags_400_body[of w body_members] features_400_body[of w body_members]
  by (simp add: features_is_tags)

subsection \<open>Reading a product by identifier\<close>




lemma id_safeParse:
  "safeParse u productIDSchema (JObj [(''id'', JStr s)]) =
     (if uuidRegex s then Inr (JObj [(''id'', JStr s)]) else Inl [Issue [Key ''id''] ''Invalid uuid''])"
  by (simp add: safeParse_def productIDSchema_def Let_def)






subsection \<open>Initialization of the store singleton\<close>

lemma inv_new: "cosmos_inv new_CosmosDB"
  by (simp add: cosmos_inv_def new_CosmosDB_def)

lemma inv_initialize: "cosmos_inv s \<Longrightarrow> cosmos_inv (initialize s)"
  by (auto simp: cosmos_inv_def initialize_def init_def Let_def split: option.splits init_stage.splits)

lemma inv_resume_database: "cosmos_inv s \<Longrightarrow> cosmos_inv (resume_database p a s)"
  by (cases "p = 0")
     (auto simp: cosmos_inv_def resume_database_def split: option.splits init_stage.splits sum.splits)

lemma inv_resume_container: "cosmos_inv s \<Longrightarrow> cosmos_inv (resume_container p a s)"
  by (cases "p = 0")
     (auto simp: cosmos_inv_def resume_container_def split: option.splits init_stage.splits sum.splits)

lemma inv_step: "cosmos_inv s \<Longrightarrow> cosmos_inv (cosmos_step s ev)"
  by (cases ev) (simp_all add: inv_initialize inv_resume_database inv_resume_container)

lemma inv_foldl: "cosmos_inv s \<Longrightarrow> cosmos_inv (foldl cosmos_step s evs)"
  by (induction evs arbitrary: s) (simp_all add: inv_step)

lemma inv_run: "cosmos_inv (cosmos_run evs)"
  by (simp add: cosmos_run_def inv_foldl inv_new)

lemma inv_bounds:
  "cosmos_inv s \<Longrightarrow> databaseCreations s \<le> 1 \<and> containerCreations s \<le> 1 \<and> promises s \<le> 1 \<and>
     set (returned s) \<subseteq> {Immediately, ThePromise 0}"
  by (auto simp: cosmos_inv_def split: option.splits init_stage.splits)

lemma inv_call_before:
  "cosmos_inv s \<Longrightarrow> \<not> initialized s \<Longrightarrow>
     returned (initialize s) = returned s @ [ThePromise 0] \<and> databaseCreations (initialize s) = 1"
  by (auto simp: cosmos_inv_def initialize_def init_def Let_def split: option.splits init_stage.splits)

lemma call_after:
  "initialized s \<Longrightarrow> initialize s = s\<lparr>returned := returned s @ [Immediately]\<rparr>"
  by (simp add: initialize_def)
lemma run_example:
  "cosmos_run [CallInitialize, CallInitialize, DatabaseAnswer 0 (Inr (JStr ''db'')), CallInitialize,
               ContainerAnswer 0 (Inr (JStr ''productsContainer'')), CallInitialize] =
     \<lparr>initialized = True, initializing = Some 0, productsContainer = Some (JStr ''productsContainer''),
      suspended = Map.empty, settled = [0 \<mapsto> Inr ()], promises = 1,
      databaseCreations = 1, containerCreations = 1,
      returned = [ThePromise 0, ThePromise 0, ThePromise 0, Immediately]\<rparr>"
  by (simp add: cosmos_run_def new_CosmosDB_def initialize_def init_def resume_database_def
        resume_container_def Let_def)

text \<open>
  C9. After any sequence of \<^verbatim>\<open>initialize()\<close> calls and store answers, at most one
  database creation and at most one container creation have been issued and at most
  one promise exists; every call was handed either that promise or an immediate
  return; a further call before completion is handed the same promise (and exactly one
  database creation has then been issued), and a further call after completion returns
  immediately and changes nothing else.
\<close>

theorem single_initialization:
  "databaseCreations (cosmos_run evs) \<le> 1
   \<and> containerCreations (cosmos_run evs) \<le> 1
   \<and> promises (cosmos_run evs) \<le> 1
   \<and> (\<forall>r \<in> set (returned (cosmos_run evs)). r = Immediately \<or> r = ThePromise 0)
   \<and> (\<not> initialized (cosmos_run evs) \<longrightarrow>
        returned (cosmos_step (cosmos_run evs) CallInitialize) = returned (cosmos_run evs) @ [ThePromise 0]
      \<and> databaseCreations (cosmos_step (cosmos_run evs) CallInitialize) = 1)
   \<and> (initialized (cosmos_run evs) \<longrightarrow>
        cosmos_step (cosmos_run evs) CallInitialize =
          (cosmos_run evs)\<lparr>returned := returned (cosmos_run evs) @ [Immediately]\<rparr>)"
  using inv_bounds[OF inv_run[of evs]] inv_call_before[OF inv_run[of evs]] call_after[of "cosmos_run evs"]
  by auto

theorem single_initialization_witness:
  "databaseCreations (cosmos_run [CallInitialize, CallInitialize, DatabaseAnswer 0 (Inr (JStr ''db'')),
      CallInitialize, ContainerAnswer 0 (Inr (JStr ''productsContainer'')), CallInitialize]) = 1
   \<and> containerCreations (cosmos_run [CallInitialize, CallInitialize, DatabaseAnswer 0 (Inr (JStr ''db'')),
      CallInitialize, ContainerAnswer 0 (Inr (JStr ''productsContainer'')), CallInitialize]) = 1
   \<and> returned (cosmos_run [CallInitialize, CallInitialize, DatabaseAnswer 0 (Inr (JStr ''db'')),
      CallInitialize, ContainerAnswer 0 (Inr (JStr ''productsContainer'')), CallInitialize])
       = [ThePromise 0, ThePromise 0, ThePromise 0, Immediately]
   \<and> initialized (cosmos_run [CallInitialize, CallInitialize, DatabaseAnswer 0 (Inr (JStr ''db'')),
      CallInitialize, ContainerAnswer 0 (Inr (JStr ''productsContainer'')), CallInitialize])
   \<and> returned (cosmos_step (cosmos_run [CallInitialize, CallInitialize, DatabaseAnswer 0 (Inr (JStr ''db'')),
      CallInitialize, ContainerAnswer 0 (Inr (JStr ''productsContainer'')), CallInitialize]) CallInitialize)
       = [ThePromise 0, ThePromise 0, ThePromise 0, Immediately, Immediately]
   \<and> \<not> initialized (cosmos_run [CallInitialize, DatabaseAnswer 0 (Inl (Error (JNum (Fin 503)) ''unavailable''))])
   \<and> returned (cosmos_step (cosmos_run [CallInitialize,
        DatabaseAnswer 0 (Inl (Error (JNum (Fin 503)) ''unavailable''))]) CallInitialize)
       = returned (cosmos_run [CallInitialize,
        DatabaseAnswer 0 (Inl (Error (JNum (Fin 503)) ''unavailable''))]) @ [ThePromise 0]
   \<and> databaseCreations (cosmos_step (cosmos_run [CallInitialize,
        DatabaseAnswer 0 (Inl (Error (JNum (Fin 503)) ''unavailable''))]) CallInitialize) = 1"
proof -
  have n: "\<not> initialized (cosmos_run [CallInitialize, DatabaseAnswer 0 (Inl (Error (JNum (Fin 503)) ''unavailable''))])"
    by (simp add: cosmos_run_def new_CosmosDB_def initialize_def init_def resume_database_def Let_def)
  show ?thesis
    using n run_example
      single_initialization[of "[CallInitialize, CallInitialize, DatabaseAnswer 0 (Inr (JStr ''db'')),
        CallInitialize, ContainerAnswer 0 (Inr (JStr ''productsContainer'')), CallInitialize]"]
      single_initialization[of "[CallInitialize, DatabaseAnswer 0 (Inl (Error (JNum (Fin 503)) ''unavailable''))]"]
    by simp
qed

subsection \<open>The description search passes its input through\<close>

text \<open>
  A run of the description search in which the query is the number 42 and the embedding
  endpoint answers with a string: both reach the store query.
\<close>

theorem description_unvalidated:
  "snd (searchProductsByDescriptionVector embedding_garbled
          (JObj [(''queryDescription'', JNum (Fin 42))]) []) =
     [Called (EmbeddingPost (JNum (Fin 42))),
      Called (ItemsQuery (SelectTopByDistance DescriptionVector)
        [(''@queryVector'', JStr ''not a vector''), (''@top'', JNum (Fin 10))])]"
  by (simp add: eval_defs embedding_garbled_def)

text \<open>
  C2, as amended. The description search validates nothing: it hands the request's
  \<^verbatim>\<open>queryDescription\<close> to the embedding client; when that call fails the handler ends
  there and the store is not reached; when it returns, the returned value goes
  unchanged into the store query as \<^verbatim>\<open>@queryVector\<close>.
\<close>

theorem description_passthrough:
  assumes "get req_body ''queryDescription'' = Inr q"
  shows "(fst (generateTextVector w q []) = Inl e \<longrightarrow>
            searchProductsByDescriptionVector w req_body [] = (Inl e, [Called (EmbeddingPost q)]))
       \<and> (fst (generateTextVector w q []) = Inr v \<longrightarrow>
            take 2 (snd (searchProductsByDescriptionVector w req_body [])) =
              [Called (EmbeddingPost q),
               Called (ItemsQuery (SelectTopByDistance DescriptionVector)
                 [(''@queryVector'', v), (''@top'', topResults (field_of req_body ''top''))])])"
proof -
  obtain r tr where g: "generateTextVector w q [] = (r, tr)" by (cases "generateTextVector w q []")
  then have tr: "tr = [Called (EmbeddingPost q)]" using generateTextVector_eventsD by fastforce
  from assms have top: "get req_body ''top'' = Inr (field_of req_body ''top'')"
    by (cases req_body) auto
  show ?thesis
  proof (intro conjI impI)
    assume "fst (generateTextVector w q []) = Inl e"
    with g tr assms top show "searchProductsByDescriptionVector w req_body [] = (Inl e, [Called (EmbeddingPost q)])"
      by (simp add: searchProductsByDescriptionVector_def io_defs)
  next
    assume "fst (generateTextVector w q []) = Inr v"
    with g tr assms top show "take 2 (snd (searchProductsByDescriptionVector w req_body [])) =
              [Called (EmbeddingPost q),
               Called (ItemsQuery (SelectTopByDistance DescriptionVector)
                 [(''@queryVector'', v), (''@top'', topResults (field_of req_body ''top''))])]"
      by (auto simp: searchProductsByDescriptionVector_def search_defs io_defs topResults_defined
            dest!: searchByVector_eventsD split: sum.splits prod.splits)
  qed
qed

theorem description_passthrough_witness:
  "get (JObj [(''queryDescription'', JStr ''smart lighting''), (''top'', JNum (Fin 1))]) ''queryDescription''
      = Inr (JStr ''smart lighting'')
   \<and> fst (generateTextVector healthy (JStr ''smart lighting'') []) = Inr (JArr [JNum (Fin 1), JNum (Fin 0)])
   \<and> take 2 (snd (searchProductsByDescriptionVector healthy
         (JObj [(''queryDescription'', JStr ''smart lighting''), (''top'', JNum (Fin 1))]) [])) =
        [Called (EmbeddingPost (JStr ''smart lighting'')),
         Called (ItemsQuery (SelectTopByDistance DescriptionVector)
           [(''@queryVector'', JArr [JNum (Fin 1), JNum (Fin 0)]), (''@top'', JNum (Fin 1))])]
   \<and> fst (generateTextVector embedding_down (JStr ''smart lighting'') [])
        = Inl (Error (JStr ''ECONNREFUSED'') ''connect ECONNREFUSED'')
   \<and> searchProductsByDescriptionVector embedding_down
         (JObj [(''queryDescription'', JStr ''smart lighting''), (''top'', JNum (Fin 1))]) [] =
        (Inl (Error (JStr ''ECONNREFUSED'') ''connect ECONNREFUSED''),
         [Called (EmbeddingPost (JStr ''smart lighting''))])"
proof -
  let ?b = "JObj [(''queryDescription'', JStr ''smart lighting''), (''top'', JNum (Fin 1))]"
  have h: "get ?b ''queryDescription'' = Inr (JStr ''smart lighting'')" by simp
  have g1: "fst (generateTextVector healthy (JStr ''smart lighting'') []) = Inr (JArr [JNum (Fin 1), JNum (Fin 0)])"
    by (simp add: eval_defs)
  have g2: "fst (generateTextVector embedding_down (JStr ''smart lighting'') [])
        = Inl (Error (JStr ''ECONNREFUSED'') ''connect ECONNREFUSED'')"
    by (simp add: eval_defs)
  have t: "topResults (field_of ?b ''top'') = JNum (Fin 1)" by (simp add: topResults_def)
  show ?thesis
    using h g1 g2 t
      description_passthrough[OF h, of healthy _ "JArr [JNum (Fin 1), JNum (Fin 0)]"]
      description_passthrough[OF h, of embedding_down "Error (JStr ''ECONNREFUSED'') ''connect ECONNREFUSED''"]
    by simp
qed

subsection \<open>Requests that fail validation\<close>

lemma create_invalid:
  "safeParse (validUrl w) productSchema req_body = Inl errs \<Longrightarrow>
   createProduct w req_body [] =
     (Inr \<lparr>status = 400,
           body = JObj [(''status'', JStr ''error''), (''errors'', JArr (map error_entry errs))]\<rparr>, [])"
  by (simp add: createProduct_def io_defs)

lemma safeParse_Inl:
  "safeParse u s v = Inl errs \<Longrightarrow> errs = fst (parse u s [] v) \<and> errs \<noteq> []"
  by (auto simp: safeParse_def split: prod.splits if_splits)

lemma field_issue_reported:
  assumes "safeParse u (ZObject shape) (JObj kvs) = Inl errs"
    and "(k, s) \<in> set shape"
    and "fst (parse u s [Key k] (lookup kvs k)) \<noteq> []"
  shows "\<exists>rest m. m \<noteq> [] \<and>
           JObj [(''path'', JStr (join_with ''.'' (k # rest))), (''message'', JStr m)]
             \<in> set (map error_entry errs)"
proof -
  define i where "i = hd (fst (parse u s [Key k] (lookup kvs k)))"
  have i: "i \<in> set (fst (parse u s [Key k] (lookup kvs k)))"
    unfolding i_def by (rule hd_in_set[OF assms(3)])
  from parse_issue[OF i] obtain rest where p: "path i = [Key k] @ rest" and m: "issue_message i \<noteq> []"
    by (elim conjE exE)
  have e: "errs = fst (parse u (ZObject shape) [] (JObj kvs))"
    using safeParse_Inl[OF assms(1)] by (rule conjunct1)
  have "i \<in> set (fst (parse u (snd (k, s)) ([] @ [Key (fst (k, s))]) (lookup kvs (fst (k, s)))))"
    using i by (simp only: fst_conv snd_conv append_Nil)
  then have "i \<in> set errs"
    unfolding e object_issues using assms(2) by (rule_tac UN_I)
  then have "error_entry i \<in> set (map error_entry errs)" unfolding set_map by (rule imageI)
  moreover have "error_entry i =
      JObj [(''path'', JStr (join_with ''.'' (k # map seg_text rest))), (''message'', JStr (issue_message i))]"
    using p by (simp add: error_entry_def)
  ultimately have "issue_message i \<noteq> [] \<and>
      JObj [(''path'', JStr (join_with ''.'' (k # map seg_text rest))), (''message'', JStr (issue_message i))]
        \<in> set (map error_entry errs)"
    using m by simp
  then show ?thesis by (intro exI)
qed

text \<open>
  A read by the identifier \<^verbatim>\<open>abc\<close>: the answer is 400 with one fixed message; the
  violated field \<^verbatim>\<open>id\<close> and the validator's message are not in the body.
\<close>

theorem get_by_id_single_message:
  "getProductById healthy ''abc'' [] =
     (Inr \<lparr>status = 400,
           body = JObj [(''status'', JStr ''error''),
                        (''message'', JStr ''Invalid product ID, should be a valid UUID'')]\<rparr>, [])
   \<and> safeParse (validUrl healthy) productIDSchema (JObj [(''id'', JStr ''abc'')]) =
       Inl [Issue [Key ''id''] ''Invalid uuid'']
   \<and> field_of (JObj [(''status'', JStr ''error''),
                      (''message'', JStr ''Invalid product ID, should be a valid UUID'')]) ''errors''
       = JUndefined"
  by (simp add: getProductById_def id_safeParse uuidRegex_def io_defs message_body_def)

lemma malformed_violated:
  "violated_fields (validUrl healthy) productSchema [] malformed_product =
     [[Key ''price''], [Key ''tags'', Idx 1], [Key ''dimensions'', Key ''weight''],
      [Key ''dimensions'', Key ''height''], [Key ''dimensions'', Key ''depth'']]"
  by (simp add: productSchema_def productShape_def dimensionsShape_def
        malformed_product_def sample_product_def healthy_def enumerate_eq_zip)

lemma violated_entry:
  assumes "safeParse u s v = Inl errs" and "p \<in> set (violated_fields u s [] v)"
  shows "\<exists>m. m \<noteq> [] \<and>
           JObj [(''path'', JStr (join_with ''.'' (map seg_text p))), (''message'', JStr m)]
             \<in> set (map error_entry errs)"
proof -
  have e: "errs = fst (parse u s [] v)"
    using safeParse_Inl[OF assms(1)] by (rule conjunct1)
  from assms(2) have "p \<in> path ` set errs" unfolding e parse_paths .
  then obtain i where i: "i \<in> set errs" and p: "p = path i" by (elim imageE)
  from i have "i \<in> set (fst (parse u s [] v))" unfolding e .
  from parse_issue[OF this] have m: "issue_message i \<noteq> []" by (rule conjunct2)
  from i have "error_entry i \<in> set (map error_entry errs)" unfolding set_map by (rule imageI)
  then have "issue_message i \<noteq> [] \<and>
      JObj [(''path'', JStr (join_with ''.'' (map seg_text p))), (''message'', JStr (issue_message i))]
        \<in> set (map error_entry errs)"
    using m unfolding error_entry_def p by (rule_tac conjI)
  then show ?thesis by (rule exI)
qed

text \<open>
  C3, as amended. The product validator fails exactly when the body has a violated
  field. A create body that fails is answered with 400 and a list holding one entry, a
  dotted path and a non-empty message, for every issue the validator found; the paths
  of the issues are exactly the paths of the violated fields, at every depth, so every
  violated field has an entry with its dotted path and a non-empty message. A read
  whose path parameter is not a UUID is answered with 400 and the single fixed
  message. In both cases no embedding call and no store call is made.
\<close>

theorem invalid_input_400:
  "((\<exists>errs. safeParse (validUrl w) productSchema req_body = Inl errs) \<longleftrightarrow>
      violated_fields (validUrl w) productSchema [] req_body \<noteq> [])
   \<and> (safeParse (validUrl w) productSchema req_body = Inl errs \<longrightarrow>
      createProduct w req_body [] =
        (Inr \<lparr>status = 400,
              body = JObj [(''status'', JStr ''error''), (''errors'', JArr (map error_entry errs))]\<rparr>, [])
    \<and> errs \<noteq> []
    \<and> (\<forall>err \<in> set errs. issue_message err \<noteq> [])
    \<and> path ` set errs = set (violated_fields (validUrl w) productSchema [] req_body)
    \<and> (\<forall>p \<in> set (violated_fields (validUrl w) productSchema [] req_body).
          \<exists>m. m \<noteq> [] \<and>
            JObj [(''path'', JStr (join_with ''.'' (map seg_text p))), (''message'', JStr m)]
              \<in> set (map error_entry errs))
    \<and> (\<forall>kvs k s. req_body = JObj kvs \<and> (k, s) \<in> set productShape
                 \<and> fst (parse (validUrl w) s [Key k] (lookup kvs k)) \<noteq> [] \<longrightarrow>
          (\<exists>rest m. m \<noteq> [] \<and>
             JObj [(''path'', JStr (join_with ''.'' (k # rest))), (''message'', JStr m)]
               \<in> set (map error_entry errs))))
   \<and> (\<not> uuidRegex ident \<longrightarrow>
        getProductById w ident [] =
          (Inr \<lparr>status = 400, body = message_body ''Invalid product ID, should be a valid UUID''\<rparr>, []))"
proof (intro conjI impI allI ballI)
  show "(\<exists>errs. safeParse (validUrl w) productSchema req_body = Inl errs) \<longleftrightarrow>
      violated_fields (validUrl w) productSchema [] req_body \<noteq> []"
    by (rule fails_iff_violated)
next
  assume a: "safeParse (validUrl w) productSchema req_body = Inl errs"
  then show "createProduct w req_body [] =
        (Inr \<lparr>status = 400,
              body = JObj [(''status'', JStr ''error''), (''errors'', JArr (map error_entry errs))]\<rparr>, [])"
    by (rule create_invalid)
  from safeParse_Inl[OF a] show "errs \<noteq> []" by (rule conjunct2)
  { fix err assume "err \<in> set errs"
    then have "err \<in> set (fst (parse (validUrl w) productSchema [] req_body))"
      by (rule subst[OF conjunct1[OF safeParse_Inl[OF a]], of "\<lambda>x. err \<in> set x"])
    from parse_issue[OF this] show "issue_message err \<noteq> []" by (rule conjunct2) }
  have e: "errs = fst (parse (validUrl w) productSchema [] req_body)"
    using safeParse_Inl[OF a] by (rule conjunct1)
  show "path ` set errs = set (violated_fields (validUrl w) productSchema [] req_body)"
    unfolding e by (rule parse_paths)
  { fix p assume "p \<in> set (violated_fields (validUrl w) productSchema [] req_body)"
    from violated_entry[OF a this]
    show "\<exists>m. m \<noteq> [] \<and>
            JObj [(''path'', JStr (join_with ''.'' (map seg_text p))), (''message'', JStr m)]
              \<in> set (map error_entry errs)" . }
  { fix kvs k s
    assume b: "req_body = JObj kvs \<and> (k, s) \<in> set productShape
                 \<and> fst (parse (validUrl w) s [Key k] (lookup kvs k)) \<noteq> []"
    note b1 = b[THEN conjunct1] and b2 = b[THEN conjunct2, THEN conjunct1]
      and b3 = b[THEN conjunct2, THEN conjunct2]
    have "safeParse (validUrl w) (ZObject productShape) (JObj kvs) = Inl errs"
      using a by (simp only: productSchema_def b1)
    from field_issue_reported[OF this b2 b3]
    show "\<exists>rest m. m \<noteq> [] \<and>
             JObj [(''path'', JStr (join_with ''.'' (k # rest))), (''message'', JStr m)]
               \<in> set (map error_entry errs)" . }
next
  assume "\<not> uuidRegex ident"
  then show "getProductById w ident [] =
          (Inr \<lparr>status = 400, body = message_body ''Invalid product ID, should be a valid UUID''\<rparr>, [])"
    by (simp add: getProductById_def id_safeParse io_defs)
qed

theorem invalid_input_400_witness:
  "safeParse (validUrl healthy) productSchema malformed_product =
     Inl [Issue [Key ''price''] ''Expected number, received string'',
          Issue [Key ''tags'', Idx 1] ''Expected string, received number'',
          Issue [Key ''dimensions'', Key ''weight''] ''Expected string, received number'',
          Issue [Key ''dimensions'', Key ''height''] ''Required'',
          Issue [Key ''dimensions'', Key ''depth''] ''Expected string, received null'']
   \<and> violated_fields (validUrl healthy) productSchema [] malformed_product =
     [[Key ''price''], [Key ''tags'', Idx 1], [Key ''dimensions'', Key ''weight''],
      [Key ''dimensions'', Key ''height''], [Key ''dimensions'', Key ''depth'']]
   \<and> createProduct healthy malformed_product [] =
       (Inr \<lparr>status = 400,
             body = JObj [(''status'', JStr ''error''),
                          (''errors'', JArr
                             [JObj [(''path'', JStr ''price''),
                                    (''message'', JStr ''Expected number, received string'')],
                              JObj [(''path'', JStr ''tags.1''),
                                    (''message'', JStr ''Expected string, received number'')],
                              JObj [(''path'', JStr ''dimensions.weight''),
                                    (''message'', JStr ''Expected string, received number'')],
                              JObj [(''path'', JStr ''dimensions.height''),
                                    (''message'', JStr ''Required'')],
                              JObj [(''path'', JStr ''dimensions.depth''),
                                    (''message'', JStr ''Expected string, received null'')]])]\<rparr>, [])
   \<and> \<not> uuidRegex ''abc''
   \<and> getProductById healthy ''abc'' [] =
       (Inr \<lparr>status = 400, body = message_body ''Invalid product ID, should be a valid UUID''\<rparr>, [])"
proof -
  have n: "\<not> uuidRegex ''abc''" by (simp add: uuidRegex_def)
  have s: "show_nat (Suc 0) = ''1''" by (simp add: show_nat.simps)
  note T = invalid_input_400[of healthy malformed_product
        "[Issue [Key ''price''] ''Expected number, received string'',
          Issue [Key ''tags'', Idx 1] ''Expected string, received number'',
          Issue [Key ''dimensions'', Key ''weight''] ''Expected string, received number'',
          Issue [Key ''dimensions'', Key ''height''] ''Required'',
          Issue [Key ''dimensions'', Key ''depth''] ''Expected string, received null'']" "''abc''"]
  have c: "createProduct healthy malformed_product [] =
       (Inr \<lparr>status = 400,
             body = JObj [(''status'', JStr ''error''),
                          (''errors'', JArr
                             [JObj [(''path'', JStr ''price''),
                                    (''message'', JStr ''Expected number, received string'')],
                              JObj [(''path'', JStr ''tags.1''),
                                    (''message'', JStr ''Expected string, received number'')],
                              JObj [(''path'', JStr ''dimensions.weight''),
                                    (''message'', JStr ''Expected string, received number'')],
                              JObj [(''path'', JStr ''dimensions.height''),
                                    (''message'', JStr ''Required'')],
                              JObj [(''path'', JStr ''dimensions.depth''),
                                    (''message'', JStr ''Expected string, received null'')]])]\<rparr>, [])"
    using T[THEN conjunct2, THEN conjunct1, rule_format, OF malformed_parse, THEN conjunct1]
    by (simp add: error_entry_def s)
  have g: "getProductById healthy ''abc'' [] =
       (Inr \<lparr>status = 400, body = message_body ''Invalid product ID, should be a valid UUID''\<rparr>, [])"
    using T[THEN conjunct2, THEN conjunct2, rule_format, OF n] .
  from malformed_parse malformed_violated c n g show ?thesis by (simp only: simp_thms)
qed

subsection \<open>Validated products\<close>

lemma lookup_absent: "k \<notin> fst ` set kvs \<Longrightarrow> lookup kvs k = JUndefined"
  by (induction kvs) auto

lemma lookup_assign: "lookup (assign kvs k v) k' = (if k' = k then v else lookup kvs k')"
  by (induction kvs) auto

lemma field_of_set_prop:
  "field_of (set_prop (JObj kvs) k v) k' = (if k' = k then v else lookup kvs k')"
  by (simp add: lookup_assign)

lemma lookup_output:
  "distinct (map fst shape) \<Longrightarrow> (k, s) \<in> set shape \<Longrightarrow>
   lookup (map (\<lambda>ks. (fst ks, g ks)) (filter (\<lambda>ks. g ks \<noteq> JUndefined \<or> P ks) shape)) k = g (k, s)"
proof (induction shape)
  case Nil
  then show ?case by simp
next
  case (Cons ks rest)
  show ?case
  proof (cases "ks = (k, s)")
    case True
    from Cons.prems(1) True have "k \<notin> fst ` set rest" by auto
    then have "k \<notin> fst ` set (map (\<lambda>ks. (fst ks, g ks)) (filter (\<lambda>ks. g ks \<noteq> JUndefined \<or> P ks) rest))"
      by (auto simp: image_iff)
    then have "lookup (map (\<lambda>ks. (fst ks, g ks)) (filter (\<lambda>ks. g ks \<noteq> JUndefined \<or> P ks) rest)) k = JUndefined"
      by (rule lookup_absent)
    with True show ?thesis by simp
  next
    case False
    with Cons.prems have m: "(k, s) \<in> set rest" and d: "distinct (map fst rest)" by auto
    from Cons.prems(1) m have "fst ks \<noteq> k" by (auto simp: image_iff)
    with Cons.IH[OF d m] show ?thesis by simp
  qed
qed

lemma object_field:
  assumes "distinct (map fst shape)" and "(k, s) \<in> set shape"
  shows "field_of (snd (parse u (ZObject shape) p (JObj kvs))) k =
           snd (parse u s (p @ [Key k]) (lookup kvs k))"
  unfolding object_parse snd_conv field_of.simps
  using lookup_output[OF assms,
      of "\<lambda>ks. snd (parse u (snd ks) (p @ [Key (fst ks)]) (lookup kvs (fst ks)))"
         "\<lambda>ks. fst ks \<in> fst ` set kvs"]
  by (simp only: fst_conv snd_conv)

lemma safeParse_Inr:
  "safeParse u s v = Inr out \<Longrightarrow> fst (parse u s [] v) = [] \<and> out = snd (parse u s [] v)"
  by (auto simp: safeParse_def split: prod.splits if_splits)

lemma product_keys_distinct: "distinct (map fst productShape)"
  by (simp add: productShape_def)







lemma attach_vector_eq:
  "attach_vector w c n t p tr =
     (if c then (case fst (generateTextVector w t tr) of Inl e \<Rightarrow> Inl e | Inr v \<Rightarrow> Inr (set_prop p n v),
                 tr @ [Called (EmbeddingPost t)])
      else (Inr p, tr))"
proof -
  obtain r tr' where g: "generateTextVector w t tr = (r, tr')" by (cases "generateTextVector w t tr")
  from generateTextVector_eventsD[OF g] have "tr' = tr @ [Called (EmbeddingPost t)]" .
  with g show ?thesis by (simp add: attach_vector_def io_defs split: sum.splits)
qed

lemma addProduct_eq:
  "addProduct w p tr =
     (case respond w tr (ItemsCreate p) of Inl e \<Rightarrow> Inl e | Inr a \<Rightarrow> get a ''resource'',
      tr @ [Called (ItemsCreate p)])"
  by (simp add: addProduct_def io_defs split: sum.splits)

lemma uuid_nonempty: "uuidRegex s \<Longrightarrow> s \<noteq> []"
  by (auto simp: uuidRegex_def)

lemma optional_uuid_ok:
  "fst (parse u (ZOptional (ZString [Uuid])) p v) = [] \<Longrightarrow>
     v = JUndefined \<or> (\<exists>s. v = JStr s \<and> uuidRegex s)"
  by (cases v) (auto simp: invalid_type_def split: if_splits)

lemma product_field_ok:
  assumes "safeParse u productSchema (JObj kvs) = Inr p0" and "(k, s) \<in> set productShape"
  shows "fst (parse u s [Key k] (lookup kvs k)) = []"
    and "field_of p0 k = snd (parse u s [Key k] (lookup kvs k))"
proof -
  from safeParse_Inr[OF assms(1)]
  have ok: "fst (parse u (ZObject productShape) [] (JObj kvs)) = []"
    and out: "p0 = snd (parse u (ZObject productShape) [] (JObj kvs))"
    by (simp_all only: productSchema_def)
  from ok obtain kvs' where "JObj kvs = JObj kvs'" and
    a: "\<forall>ks \<in> set productShape. fst (parse u (snd ks) ([] @ [Key (fst ks)]) (lookup kvs' (fst ks))) = []"
    unfolding object_ok_iff by (elim exE conjE)
  then have a': "\<forall>ks \<in> set productShape. fst (parse u (snd ks) ([] @ [Key (fst ks)]) (lookup kvs (fst ks))) = []"
    by (simp only: json.inject)
  from bspec[OF a' assms(2)] show "fst (parse u s [Key k] (lookup kvs k)) = []"
    by (simp only: fst_conv snd_conv append_Nil)
  from object_field[OF product_keys_distinct assms(2), of u "[]" kvs]
  show "field_of p0 k = snd (parse u s [Key k] (lookup kvs k))"
    unfolding out by (simp only: append_Nil)
qed

lemma product_is_object:
  assumes "safeParse u productSchema b = Inr p0"
  shows "\<exists>kvs out. b = JObj kvs \<and> p0 = JObj out"
proof -
  from safeParse_Inr[OF assms]
  have ok: "fst (parse u (ZObject productShape) [] b) = []"
    and out: "p0 = snd (parse u (ZObject productShape) [] b)"
    by (simp_all only: productSchema_def)
  from ok obtain kvs where b: "b = JObj kvs" unfolding object_ok_iff by (elim exE conjE)
  from out obtain out' where "p0 = JObj out'" unfolding b object_parse snd_conv ..
  with b show ?thesis by simp
qed

lemma product_flat_field:
  assumes "safeParse u productSchema (JObj kvs) = Inr p0" and "(k, s) \<in> set productShape" and "flat s"
  shows "field_of p0 k = lookup kvs k"
  using product_field_ok[OF assms(1,2)] parse_flat_id[OF assms(3), of u "[Key k]" "lookup kvs k"]
  by (simp only:)

lemma valid_product:
  assumes v: "safeParse u productSchema b = Inr p0"
  obtains kvs out ds ss fs where
    "b = JObj kvs" "p0 = JObj out"
    "lookup out ''description'' = JStr ds" "lookup kvs ''description'' = JStr ds"
    "lookup out ''tags'' = JArr (map JStr ss)" "lookup kvs ''tags'' = JArr (map JStr ss)"
    "lookup out ''features'' = JStr fs" "lookup kvs ''features'' = JStr fs"
    "lookup out ''id'' = lookup kvs ''id''"
    "lookup kvs ''id'' = JUndefined \<or> (\<exists>s. lookup kvs ''id'' = JStr s \<and> uuidRegex s)"
proof -
  from product_is_object[OF v] obtain kvs out where b: "b = JObj kvs" and p: "p0 = JObj out" by blast
  note v' = v[unfolded b]
  have md: "(''description'', ZString []) \<in> set productShape"
    and mt: "(''tags'', ZArray (ZString [])) \<in> set productShape"
    and mf: "(''features'', ZString []) \<in> set productShape"
    and mi: "(''id'', ZOptional (ZString [Uuid])) \<in> set productShape"
    by (simp_all add: productShape_def)
  have fd: "lookup out ''description'' = lookup kvs ''description''"
    using product_flat_field[OF v' md] p by simp
  have ft: "lookup out ''tags'' = lookup kvs ''tags''"
    using product_flat_field[OF v' mt] p by simp
  have ff: "lookup out ''features'' = lookup kvs ''features''"
    using product_flat_field[OF v' mf] p by simp
  have fi: "lookup out ''id'' = lookup kvs ''id''"
    using product_flat_field[OF v' mi] p by simp
  from string_ok[OF product_field_ok(1)[OF v' md]] obtain ds where d: "lookup kvs ''description'' = JStr ds" ..
  from string_ok[OF product_field_ok(1)[OF v' mf]] obtain fs where f: "lookup kvs ''features'' = JStr fs" ..
  from product_field_ok(1)[OF v' mt] obtain ss where t: "lookup kvs ''tags'' = JArr (map JStr ss)"
    unfolding strings_parse ..
  note i = optional_uuid_ok[OF product_field_ok(1)[OF v' mi]]
  show thesis
    by (rule that[OF b p fd[unfolded d] d ft[unfolded t] t ff[unfolded f] f fi i])
qed

lemma str_of_JStr: "map str_of (map JStr ss) = ss"
  by (induction ss) auto

subsection \<open>A run of the create handler on a valid payload\<close>

lemma str_of_comp: "map (str_of \<circ> JStr) ss = ss"
  by (induction ss) auto

lemma create_steps:
  assumes v: "safeParse (validUrl w) productSchema b = Inr (JObj out)"
    and d: "lookup out ''description'' = JStr ds"
    and t: "lookup out ''tags'' = JArr (map JStr ss)"
    and f: "lookup out ''features'' = JStr fs"
    and i: "lookup out ''id'' = JUndefined \<or> (\<exists>s. lookup out ''id'' = JStr s \<and> s \<noteq> [])"
    and p1_def: "p1 = (if lookup out ''id'' = JUndefined
               then JObj (assign out ''id'' (JStr (uuidv4 (randomBits w)))) else JObj out)"
    and h1_def: "h1 = (if ds \<noteq> [] then [Called (EmbeddingPost (JStr ds))] else [])"
    and h2_def: "h2 = h1 @ (if ss \<noteq> [] then [Called (EmbeddingPost (JStr (join_with '' '' ss)))] else [])"
    and h3_def: "h3 = h2 @ (if fs \<noteq> [] then [Called (EmbeddingPost (JStr fs))] else [])"
    and r1_def: "r1 = fst (generateTextVector w (JStr ds) [])"
    and r2_def: "r2 = fst (generateTextVector w (JStr (join_with '' '' ss)) h1)"
    and r3_def: "r3 = fst (generateTextVector w (JStr fs) h2)"
    and p2_def: "p2 = (if ds \<noteq> [] then set_prop p1 ''descriptionVector'' (projr r1) else p1)"
    and p3_def: "p3 = (if ss \<noteq> [] then set_prop p2 ''tagsVector'' (projr r2) else p2)"
    and p4_def: "p4 = (if fs \<noteq> [] then set_prop p3 ''featuresVector'' (projr r3) else p3)"
  shows "createProduct w b [] =
     (if ds \<noteq> [] \<and> isl r1 then (Inr \<lparr>status = 500, body = message_body ''Internal Server Error''\<rparr>,
                          h1 @ [Logged ''Error creating product:'' (message (projl r1))])
        else if ss \<noteq> [] \<and> isl r2 then (Inr \<lparr>status = 500, body = message_body ''Internal Server Error''\<rparr>,
                          h2 @ [Logged ''Error creating product:'' (message (projl r2))])
        else if fs \<noteq> [] \<and> isl r3 then (Inr \<lparr>status = 500, body = message_body ''Internal Server Error''\<rparr>,
                          h3 @ [Logged ''Error creating product:'' (message (projl r3))])
        else case respond w h3 (ItemsCreate p4) of
                  Inl e \<Rightarrow> (Inr \<lparr>status = 500, body = message_body ''Internal Server Error''\<rparr>,
                          h3 @ [Called (ItemsCreate p4), Logged ''Error creating product:'' (message e)])
                | Inr a \<Rightarrow>
                    (case get a ''resource'' of
                       Inl e \<Rightarrow> (Inr \<lparr>status = 500, body = message_body ''Internal Server Error''\<rparr>,
                          h3 @ [Called (ItemsCreate p4), Logged ''Error creating product:'' (message e)])
                     | Inr r \<Rightarrow> (Inr \<lparr>status = 201, body = success_body r\<rparr>,
                                 h3 @ [Called (ItemsCreate p4)])))"
proof -
  obtain o1 where o1: "p1 = JObj o1" and o1d: "lookup o1 ''description'' = JStr ds"
    and o1t: "lookup o1 ''tags'' = JArr (map JStr ss)" and o1f: "lookup o1 ''features'' = JStr fs"
    unfolding p1_def using d t f by (cases "lookup out ''id'' = JUndefined") (simp_all add: lookup_assign)
  obtain o2 where o2: "p2 = JObj o2"
    and o2t: "lookup o2 ''tags'' = JArr (map JStr ss)" and o2f: "lookup o2 ''features'' = JStr fs"
    unfolding p2_def o1 using o1t o1f by (cases "ds = []") (simp_all add: lookup_assign)
  obtain o3 where o3: "p3 = JObj o3" and o3f: "lookup o3 ''features'' = JStr fs"
    unfolding p3_def o2 using o2f by (cases "ss = []") (simp_all add: lookup_assign)
  have id_truthy: "truthy (lookup out ''id'') = (lookup out ''id'' \<noteq> JUndefined)"
    using i by auto
  have s0: "(if \<not> truthy (field_of (JObj out) ''id'')
             then set_prop (JObj out) ''id'' (JStr (uuidv4 (randomBits w))) else JObj out) = p1"
    by (simp add: p1_def id_truthy)
  have s1: "attach_vector w (truthy (field_of p1 ''description'')) ''descriptionVector''
              (field_of p1 ''description'') p1 [] =
            (if ds \<noteq> [] \<and> isl r1 then Inl (projl r1) else Inr p2, h1)"
    by (cases r1) (auto simp: attach_vector_eq o1 o1d h1_def p2_def r1_def[symmetric])
  have s2: "attach_vector w (truthy (field_of p2 ''tags'') \<and> 0 < array_length (field_of p2 ''tags''))
              ''tagsVector'' (JStr (join_space (field_of p2 ''tags''))) p2 h1 =
            (if ss \<noteq> [] \<and> isl r2 then Inl (projl r2) else Inr p3, h2)"
    by (cases r2) (auto simp: attach_vector_eq o2 o2t h2_def p3_def r2_def[symmetric] str_of_comp)
  have s3: "attach_vector w (truthy (field_of p3 ''features'')) ''featuresVector''
              (field_of p3 ''features'') p3 h2 =
            (if fs \<noteq> [] \<and> isl r3 then Inl (projl r3) else Inr p4, h3)"
    by (cases r3) (auto simp: attach_vector_eq o3 o3f h3_def p4_def r3_def[symmetric])
  show ?thesis
    unfolding createProduct_def v Let_def sum.case s0
    by (simp add: io_bind_def io_catch_def s1 s2 s3 addProduct_eq reply_def io_return_def
          logger_error_def split: sum.splits)
qed

lemma valid_id:
  assumes "lookup out ''id'' = lookup kvs ''id''"
    and "lookup kvs ''id'' = JUndefined \<or> (\<exists>s. lookup kvs ''id'' = JStr s \<and> uuidRegex s)"
  shows "lookup out ''id'' = JUndefined \<or> (\<exists>s. lookup out ''id'' = JStr s \<and> s \<noteq> [])"
  using assms uuid_nonempty by auto

lemma failed_embedding_append:
  "failed_embedding w hist (xs @ ys) =
     (failed_embedding w hist xs \<or> failed_embedding w (hist @ xs) ys)"
  by (induction xs arbitrary: hist) auto

lemma embedding_inputs_append:
  "embedding_inputs (xs @ ys) = embedding_inputs xs @ embedding_inputs ys"
  by (induction xs rule: embedding_inputs.induct) auto

lemma create_run:
  assumes v: "safeParse (validUrl w) productSchema b = Inr (JObj out)"
    and d: "lookup out ''description'' = JStr ds"
    and t: "lookup out ''tags'' = JArr (map JStr ss)"
    and f: "lookup out ''features'' = JStr fs"
    and i: "lookup out ''id'' = JUndefined \<or> (\<exists>s. lookup out ''id'' = JStr s \<and> s \<noteq> [])"
    and p1_def: "p1 = (if lookup out ''id'' = JUndefined
               then JObj (assign out ''id'' (JStr (uuidv4 (randomBits w)))) else JObj out)"
    and h1_def: "h1 = (if ds \<noteq> [] then [Called (EmbeddingPost (JStr ds))] else [])"
    and h2_def: "h2 = h1 @ (if ss \<noteq> [] then [Called (EmbeddingPost (JStr (join_with '' '' ss)))] else [])"
    and h3_def: "h3 = h2 @ (if fs \<noteq> [] then [Called (EmbeddingPost (JStr fs))] else [])"
    and r1_def: "r1 = fst (generateTextVector w (JStr ds) [])"
    and r2_def: "r2 = fst (generateTextVector w (JStr (join_with '' '' ss)) h1)"
    and r3_def: "r3 = fst (generateTextVector w (JStr fs) h2)"
    and p2_def: "p2 = (if ds \<noteq> [] then set_prop p1 ''descriptionVector'' (projr r1) else p1)"
    and p3_def: "p3 = (if ss \<noteq> [] then set_prop p2 ''tagsVector'' (projr r2) else p2)"
    and p4_def: "p4 = (if fs \<noteq> [] then set_prop p3 ''featuresVector'' (projr r3) else p3)"
    and evs_def: "evs = snd (createProduct w b [])"
    and bad_def: "bad = ((ds \<noteq> [] \<and> isl r1) \<or> (ss \<noteq> [] \<and> isl r2) \<or> (fs \<noteq> [] \<and> isl r3))"
  shows "failed_embedding w [] evs = bad"
    and "bad \<Longrightarrow> (\<forall>doc. Called (ItemsCreate doc) \<notin> set evs)
             \<and> fst (createProduct w b []) = Inr \<lparr>status = 500, body = message_body ''Internal Server Error''\<rparr>"
    and "\<exists>rest. embedding_inputs h3 = embedding_inputs evs @ rest"
    and "\<not> bad \<Longrightarrow> embedding_inputs evs = embedding_inputs h3"
    and "\<not> bad \<Longrightarrow> Called (ItemsCreate p4) \<in> set evs"
    and "Called (ItemsCreate doc) \<in> set evs \<Longrightarrow> doc = p4"
    and "fst (createProduct w b []) = Inr r \<Longrightarrow> status r = 201 \<Longrightarrow>
           evs = h3 @ [Called (ItemsCreate p4)] \<and>
           (\<exists>answer. respond w h3 (ItemsCreate p4) = Inr answer \<and>
                body r = success_body (field_of answer ''resource''))"
proof -
  note cs = create_steps[OF v d t f i p1_def h1_def h2_def h3_def r1_def r2_def r3_def p2_def p3_def p4_def]
  have f1: "failed_embedding w [] h1 = (ds \<noteq> [] \<and> isl r1)"
    by (simp add: h1_def r1_def)
  have f2: "failed_embedding w [] h2 = ((ds \<noteq> [] \<and> isl r1) \<or> (ss \<noteq> [] \<and> isl r2))"
    unfolding h2_def failed_embedding_append f1 by (simp add: r2_def)
  have f3: "failed_embedding w [] h3 = bad"
    unfolding h3_def failed_embedding_append f2 bad_def by (simp add: r3_def h2_def[symmetric])
  have n1: "\<forall>doc. Called (ItemsCreate doc) \<notin> set h1"
    "\<forall>doc. Called (ItemsCreate doc) \<notin> set h2"
    "\<forall>doc. Called (ItemsCreate doc) \<notin> set h3"
    by (simp_all add: h3_def h2_def h1_def)
  have pre1: "\<exists>rest. embedding_inputs h3 = embedding_inputs h1 @ rest"
    "\<exists>rest. embedding_inputs h3 = embedding_inputs h2 @ rest"
    by (simp_all add: h3_def h2_def embedding_inputs_append)
  show "failed_embedding w [] evs = bad"
    unfolding evs_def cs
    by (auto simp: failed_embedding_append f1 f2 f3 bad_def split: sum.splits)
  show "bad \<Longrightarrow> (\<forall>doc. Called (ItemsCreate doc) \<notin> set evs)
             \<and> fst (createProduct w b []) = Inr \<lparr>status = 500, body = message_body ''Internal Server Error''\<rparr>"
    unfolding evs_def cs using n1
    by (auto simp: bad_def split: sum.splits)
  show "\<exists>rest. embedding_inputs h3 = embedding_inputs evs @ rest"
    unfolding evs_def cs using pre1
    by (auto simp: embedding_inputs_append split: sum.splits)
  show "\<not> bad \<Longrightarrow> embedding_inputs evs = embedding_inputs h3"
    unfolding evs_def cs
    by (auto simp: embedding_inputs_append bad_def split: sum.splits)
  show "\<not> bad \<Longrightarrow> Called (ItemsCreate p4) \<in> set evs"
    unfolding evs_def cs
    by (auto simp: bad_def split: sum.splits)
  show "Called (ItemsCreate doc) \<in> set evs \<Longrightarrow> doc = p4"
    unfolding evs_def cs using n1
    by (auto split: sum.splits if_splits)
  show "fst (createProduct w b []) = Inr r \<Longrightarrow> status r = 201 \<Longrightarrow>
           evs = h3 @ [Called (ItemsCreate p4)] \<and>
           (\<exists>answer. respond w h3 (ItemsCreate p4) = Inr answer \<and>
                body r = success_body (field_of answer ''resource''))"
    unfolding evs_def cs
    by (auto split: sum.splits if_splits dest: get_field_of)
qed


subsection \<open>Example runs of the create handler\<close>

lemmas create_eval = createProduct_def attach_vector_def addProduct_def generateTextVector_def
  io_defs Let_def message_body_def success_body_def

lemma uuid_zero: "uuidv4 0 = ''00000000-0000-4000-8000-000000000000''"
  by code_simp


lemma sample_run:
  "createProduct healthy sample_product [] =
     (Inr \<lparr>status = 201, body = success_body sample_document\<rparr>,
      [Called (EmbeddingPost (JStr ''Conveniently charge your devices'')),
       Called (EmbeddingPost (JStr ''charging wireless'')),
       Called (EmbeddingPost (JStr ''Qi-Compatible, Fast Charging'')),
       Called (ItemsCreate sample_document)])"
  unfolding createProduct_def sample_parse
  by (simp add: create_eval sample_product_def sample_document_def healthy_def uuid_zero)


lemma sparse_parse:
  "safeParse (validUrl healthy) productSchema sparse_product = Inr sparse_product"
  by (simp add: safeParse_def productSchema_def productShape_def dimensionsShape_def
        sparse_product_def sample_product_def healthy_def invalid_type_def Let_def enumerate_eq_zip)

lemma sparse_run:
  "createProduct healthy sparse_product [] =
     (Inr \<lparr>status = 201, body = success_body sparse_document\<rparr>,
      [Called (EmbeddingPost (JStr ''Qi-Compatible, Fast Charging'')),
       Called (ItemsCreate sparse_document)])"
  unfolding createProduct_def sparse_parse
  by (simp add: create_eval sparse_product_def sample_product_def sparse_document_def healthy_def uuid_zero)



lemma sample_not_failed:
  "\<not> failed_embedding healthy [] (snd (createProduct healthy sample_product []))"
  unfolding sample_run
  by (simp add: generateTextVector_def io_defs healthy_def)

lemma sparse_not_failed:
  "\<not> failed_embedding healthy [] (snd (createProduct healthy sparse_product []))"
  unfolding sparse_run
  by (simp add: generateTextVector_def io_defs healthy_def)

lemma flaky_parse:
  "safeParse (validUrl (embedding_fails_after n)) productSchema sample_product = Inr sample_product"
  using sample_parse by (simp add: embedding_fails_after_def)

lemma flaky_run0:
  "createProduct (embedding_fails_after 0) sample_product [] =
     (Inr \<lparr>status = 500, body = message_body ''Internal Server Error''\<rparr>,
      [Called (EmbeddingPost (JStr ''Conveniently charge your devices'')),
       Logged ''Error creating product:'' ''Too Many Requests''])"
  unfolding createProduct_def flaky_parse
  by (simp add: create_eval sample_product_def embedding_fails_after_def healthy_def)

lemma flaky_run1:
  "createProduct (embedding_fails_after 1) sample_product [] =
     (Inr \<lparr>status = 500, body = message_body ''Internal Server Error''\<rparr>,
      [Called (EmbeddingPost (JStr ''Conveniently charge your devices'')),
       Called (EmbeddingPost (JStr ''charging wireless'')),
       Logged ''Error creating product:'' ''Too Many Requests''])"
  unfolding createProduct_def flaky_parse
  by (simp add: create_eval sample_product_def embedding_fails_after_def healthy_def)

lemma flaky_run2:
  "createProduct (embedding_fails_after 2) sample_product [] =
     (Inr \<lparr>status = 500, body = message_body ''Internal Server Error''\<rparr>,
      [Called (EmbeddingPost (JStr ''Conveniently charge your devices'')),
       Called (EmbeddingPost (JStr ''charging wireless'')),
       Called (EmbeddingPost (JStr ''Qi-Compatible, Fast Charging'')),
       Logged ''Error creating product:'' ''Too Many Requests''])"
  unfolding createProduct_def flaky_parse
  by (simp add: create_eval sample_product_def embedding_fails_after_def healthy_def)

lemma flaky_failed:
  "failed_embedding (embedding_fails_after 0) [] (snd (createProduct (embedding_fails_after 0) sample_product []))"
  "failed_embedding (embedding_fails_after 1) [] (snd (createProduct (embedding_fails_after 1) sample_product []))"
  "failed_embedding (embedding_fails_after 2) [] (snd (createProduct (embedding_fails_after 2) sample_product []))"
  unfolding flaky_run0 flaky_run1 flaky_run2
  by (simp_all add: generateTextVector_def io_defs embedding_fails_after_def healthy_def)

subsection \<open>Fields kept by the validator and the handler\<close>











lemma field_untouched: "k \<noteq> n \<Longrightarrow> field_of (set_prop p n v) k = field_of p k"
  by (cases p) (simp_all add: lookup_assign)



subsection \<open>A failed embedding call aborts the creation\<close>

text \<open>
  C4. On a valid payload, when an embedding call of the create handler fails, whichever
  of the three it is, no create call is made to the store at any point of the run, and
  the handler answers 500.
\<close>

theorem embedding_failure_aborts_create:
  assumes valid: "safeParse (validUrl w) productSchema req_body = Inr product"
    and failed: "failed_embedding w [] (snd (createProduct w req_body []))"
  shows "(\<forall>doc. Called (ItemsCreate doc) \<notin> set (snd (createProduct w req_body [])))
       \<and> fst (createProduct w req_body []) =
           Inr \<lparr>status = 500, body = message_body ''Internal Server Error''\<rparr>"
proof -
  obtain kvs out ds ss fs where
    b: "req_body = JObj kvs" and p: "product = JObj out"
    and d: "lookup out ''description'' = JStr ds" and d': "lookup kvs ''description'' = JStr ds"
    and t: "lookup out ''tags'' = JArr (map JStr ss)" and t': "lookup kvs ''tags'' = JArr (map JStr ss)"
    and f: "lookup out ''features'' = JStr fs" and f': "lookup kvs ''features'' = JStr fs"
    and i1: "lookup out ''id'' = lookup kvs ''id''"
    and i2: "lookup kvs ''id'' = JUndefined \<or> (\<exists>s. lookup kvs ''id'' = JStr s \<and> uuidRegex s)"
    by (rule valid_product[OF valid])
  define evs where "evs = snd (createProduct w req_body [])"
  define bad where "bad =
     ((ds \<noteq> [] \<and> isl (fst (generateTextVector w (JStr ds) [])))
      \<or> (ss \<noteq> [] \<and> isl (fst (generateTextVector w (JStr (join_with '' '' ss))
                (if ds \<noteq> [] then [Called (EmbeddingPost (JStr ds))] else []))))
      \<or> (fs \<noteq> [] \<and> isl (fst (generateTextVector w (JStr fs)
                ((if ds \<noteq> [] then [Called (EmbeddingPost (JStr ds))] else []) @
                 (if ss \<noteq> [] then [Called (EmbeddingPost (JStr (join_with '' '' ss)))] else []))))))"
  note run = create_run[OF valid[unfolded p] d t f valid_id[OF i1 i2] refl refl refl refl
      refl refl refl refl refl refl evs_def bad_def]
  from failed have bad unfolding evs_def[symmetric] run(1) .
  from run(2)[OF this] show ?thesis unfolding evs_def .
qed

theorem embedding_failure_aborts_create_witness:
  "safeParse (validUrl (embedding_fails_after 0)) productSchema sample_product = Inr sample_product
   \<and> failed_embedding (embedding_fails_after 0) []
        (snd (createProduct (embedding_fails_after 0) sample_product []))
   \<and> createProduct (embedding_fails_after 0) sample_product [] =
       (Inr \<lparr>status = 500, body = message_body ''Internal Server Error''\<rparr>,
        [Called (EmbeddingPost (JStr ''Conveniently charge your devices'')),
         Logged ''Error creating product:'' ''Too Many Requests''])
   \<and> failed_embedding (embedding_fails_after 1) []
        (snd (createProduct (embedding_fails_after 1) sample_product []))
   \<and> createProduct (embedding_fails_after 1) sample_product [] =
       (Inr \<lparr>status = 500, body = message_body ''Internal Server Error''\<rparr>,
        [Called (EmbeddingPost (JStr ''Conveniently charge your devices'')),
         Called (EmbeddingPost (JStr ''charging wireless'')),
         Logged ''Error creating product:'' ''Too Many Requests''])
   \<and> failed_embedding (embedding_fails_after 2) []
        (snd (createProduct (embedding_fails_after 2) sample_product []))
   \<and> createProduct (embedding_fails_after 2) sample_product [] =
       (Inr \<lparr>status = 500, body = message_body ''Internal Server Error''\<rparr>,
        [Called (EmbeddingPost (JStr ''Conveniently charge your devices'')),
         Called (EmbeddingPost (JStr ''charging wireless'')),
         Called (EmbeddingPost (JStr ''Qi-Compatible, Fast Charging'')),
         Logged ''Error creating product:'' ''Too Many Requests''])"
  using flaky_parse[of 0] flaky_failed flaky_run0 flaky_run1 flaky_run2
    embedding_failure_aborts_create[OF flaky_parse[of 0] flaky_failed(1)]
    embedding_failure_aborts_create[OF flaky_parse[of 1] flaky_failed(2)]
    embedding_failure_aborts_create[OF flaky_parse[of 2] flaky_failed(3)]
  by (simp only: simp_thms)

subsection \<open>Which vectors are computed\<close>

text \<open>
  C6. On a valid payload the description and the features are strings and the tags an
  array of strings. The texts sent to the embedding endpoint are, in this order and
  until one of the calls fails: the description when it is not empty, the tags joined
  with a single space when there is a tag, the features when they are not empty. When
  no call fails, exactly these texts are sent, and the document passed to the store
  has as \<^verbatim>\<open>descriptionVector\<close>, \<^verbatim>\<open>tagsVector\<close> and \<^verbatim>\<open>featuresVector\<close> the vector returned for
  its text when that text is not empty, and otherwise what the payload had there.
\<close>

theorem vectors_when_nonempty:
  assumes valid: "safeParse (validUrl w) productSchema req_body = Inr product"
  shows "\<exists>ds ss fs.
      field_of req_body ''description'' = JStr ds
    \<and> field_of req_body ''tags'' = JArr (map JStr ss)
    \<and> field_of req_body ''features'' = JStr fs
    \<and> (let evs = snd (createProduct w req_body []);
           h1 = (if ds \<noteq> [] then [Called (EmbeddingPost (JStr ds))] else []);
           h2 = h1 @ (if ss \<noteq> [] then [Called (EmbeddingPost (JStr (join_with '' '' ss)))] else []);
           expected = (if ds \<noteq> [] then [JStr ds] else [])
                    @ (if ss \<noteq> [] then [JStr (join_with '' '' ss)] else [])
                    @ (if fs \<noteq> [] then [JStr fs] else [])
       in (\<exists>rest. expected = embedding_inputs evs @ rest)
        \<and> (\<not> failed_embedding w [] evs \<longrightarrow>
             embedding_inputs evs = expected
           \<and> (\<exists>doc. Called (ItemsCreate doc) \<in> set evs
                \<and> (if ds \<noteq> []
                   then fst (generateTextVector w (JStr ds) []) = Inr (field_of doc ''descriptionVector'')
                   else field_of doc ''descriptionVector'' = field_of req_body ''descriptionVector'')
                \<and> (if ss \<noteq> []
                   then fst (generateTextVector w (JStr (join_with '' '' ss)) h1)
                          = Inr (field_of doc ''tagsVector'')
                   else field_of doc ''tagsVector'' = field_of req_body ''tagsVector'')
                \<and> (if fs \<noteq> []
                   then fst (generateTextVector w (JStr fs) h2) = Inr (field_of doc ''featuresVector'')
                   else field_of doc ''featuresVector'' = field_of req_body ''featuresVector''))))"
proof -
  obtain kvs out ds ss fs where
    b: "req_body = JObj kvs" and p: "product = JObj out"
    and d: "lookup out ''description'' = JStr ds" and d': "lookup kvs ''description'' = JStr ds"
    and t: "lookup out ''tags'' = JArr (map JStr ss)" and t': "lookup kvs ''tags'' = JArr (map JStr ss)"
    and f: "lookup out ''features'' = JStr fs" and f': "lookup kvs ''features'' = JStr fs"
    and i1: "lookup out ''id'' = lookup kvs ''id''"
    and i2: "lookup kvs ''id'' = JUndefined \<or> (\<exists>s. lookup kvs ''id'' = JStr s \<and> uuidRegex s)"
    by (rule valid_product[OF valid])
  define p1 where "p1 = (if lookup out ''id'' = JUndefined
               then JObj (assign out ''id'' (JStr (uuidv4 (randomBits w)))) else JObj out)"
  define h1 where "h1 = (if ds \<noteq> [] then [Called (EmbeddingPost (JStr ds))] else [])"
  define h2 where "h2 = h1 @ (if ss \<noteq> [] then [Called (EmbeddingPost (JStr (join_with '' '' ss)))] else [])"
  define h3 where "h3 = h2 @ (if fs \<noteq> [] then [Called (EmbeddingPost (JStr fs))] else [])"
  define r1 where "r1 = fst (generateTextVector w (JStr ds) [])"
  define r2 where "r2 = fst (generateTextVector w (JStr (join_with '' '' ss)) h1)"
  define r3 where "r3 = fst (generateTextVector w (JStr fs) h2)"
  define p2 where "p2 = (if ds \<noteq> [] then set_prop p1 ''descriptionVector'' (projr r1) else p1)"
  define p3 where "p3 = (if ss \<noteq> [] then set_prop p2 ''tagsVector'' (projr r2) else p2)"
  define p4 where "p4 = (if fs \<noteq> [] then set_prop p3 ''featuresVector'' (projr r3) else p3)"
  define evs where "evs = snd (createProduct w req_body [])"
  define bad where "bad = ((ds \<noteq> [] \<and> isl r1) \<or> (ss \<noteq> [] \<and> isl r2) \<or> (fs \<noteq> [] \<and> isl r3))"
  define expected where "expected = (if ds \<noteq> [] then [JStr ds] else [])
                    @ (if ss \<noteq> [] then [JStr (join_with '' '' ss)] else [])
                    @ (if fs \<noteq> [] then [JStr fs] else [])"
  note run = create_run[OF valid[unfolded p] d t f valid_id[OF i1 i2] p1_def h1_def h2_def h3_def
      r1_def r2_def r3_def p2_def p3_def p4_def evs_def bad_def]
  note v' = valid[unfolded b p]
  have vec: "lookup out k = lookup kvs k"
    if "k = ''descriptionVector'' \<or> k = ''tagsVector'' \<or> k = ''featuresVector''" for k
  proof -
    from that have "(k, ZOptional (ZArray ZNumber)) \<in> set productShape"
      by (auto simp: productShape_def)
    from product_flat_field[OF v' this] show ?thesis by simp
  qed
  obtain o1 where o1: "p1 = JObj o1" and o1v: "\<And>k. k \<noteq> ''id'' \<Longrightarrow> lookup o1 k = lookup out k"
    by (cases "lookup out ''id'' = JUndefined") (simp_all add: p1_def lookup_assign)
  have h3: "embedding_inputs h3 = expected"
    by (simp add: h3_def h2_def h1_def expected_def)
  have dv: "(if ds \<noteq> [] then r1 = Inr (field_of p4 ''descriptionVector'')
             else field_of p4 ''descriptionVector'' = lookup kvs ''descriptionVector'')" if "\<not> bad"
    using that vec[of "''descriptionVector''"] o1v[of "''descriptionVector''"]
    by (cases r1) (auto simp: bad_def p4_def p3_def p2_def o1 field_untouched lookup_assign)
  have tv: "(if ss \<noteq> [] then r2 = Inr (field_of p4 ''tagsVector'')
             else field_of p4 ''tagsVector'' = lookup kvs ''tagsVector'')" if "\<not> bad"
  proof -
    obtain o2 where o2: "p2 = JObj o2" and o2v: "lookup o2 ''tagsVector'' = lookup out ''tagsVector''"
      using o1v[of "''tagsVector''"] by (cases "ds = []") (simp_all add: p2_def o1 lookup_assign)
    from that vec[of "''tagsVector''"] o2v show ?thesis
      by (cases r2) (auto simp: bad_def p4_def p3_def o2 field_untouched lookup_assign)
  qed
  have fv: "(if fs \<noteq> [] then r3 = Inr (field_of p4 ''featuresVector'')
             else field_of p4 ''featuresVector'' = lookup kvs ''featuresVector'')" if "\<not> bad"
  proof -
    obtain o2 where o2: "p2 = JObj o2" and o2v: "lookup o2 ''featuresVector'' = lookup out ''featuresVector''"
      using o1v[of "''featuresVector''"] by (cases "ds = []") (simp_all add: p2_def o1 lookup_assign)
    obtain o3 where o3: "p3 = JObj o3" and o3v: "lookup o3 ''featuresVector'' = lookup out ''featuresVector''"
      using o2v by (cases "ss = []") (simp_all add: p3_def o2 lookup_assign)
    from that vec[of "''featuresVector''"] o3v show ?thesis
      by (cases r3) (auto simp: bad_def p4_def o3 lookup_assign)
  qed
  have main: "(\<exists>rest. expected = embedding_inputs evs @ rest)
        \<and> (\<not> failed_embedding w [] evs \<longrightarrow>
             embedding_inputs evs = expected
           \<and> (\<exists>doc. Called (ItemsCreate doc) \<in> set evs
                \<and> (if ds \<noteq> []
                   then r1 = Inr (field_of doc ''descriptionVector'')
                   else field_of doc ''descriptionVector'' = field_of req_body ''descriptionVector'')
                \<and> (if ss \<noteq> []
                   then r2 = Inr (field_of doc ''tagsVector'')
                   else field_of doc ''tagsVector'' = field_of req_body ''tagsVector'')
                \<and> (if fs \<noteq> []
                   then r3 = Inr (field_of doc ''featuresVector'')
                   else field_of doc ''featuresVector'' = field_of req_body ''featuresVector'')))"
  proof (intro conjI impI)
    from run(3) show "\<exists>rest. expected = embedding_inputs evs @ rest" unfolding h3 .
  next
    assume "\<not> failed_embedding w [] evs"
    then have nb: "\<not> bad" unfolding run(1) .
    from run(4)[OF nb] show "embedding_inputs evs = expected" unfolding h3 .
    from run(5)[OF nb] dv[OF nb] tv[OF nb] fv[OF nb]
    show "\<exists>doc. Called (ItemsCreate doc) \<in> set evs
                \<and> (if ds \<noteq> []
                   then r1 = Inr (field_of doc ''descriptionVector'')
                   else field_of doc ''descriptionVector'' = field_of req_body ''descriptionVector'')
                \<and> (if ss \<noteq> []
                   then r2 = Inr (field_of doc ''tagsVector'')
                   else field_of doc ''tagsVector'' = field_of req_body ''tagsVector'')
                \<and> (if fs \<noteq> []
                   then r3 = Inr (field_of doc ''featuresVector'')
                   else field_of doc ''featuresVector'' = field_of req_body ''featuresVector'')"
      unfolding b field_of.simps by (intro exI[of _ p4] conjI)
  qed
  have body: "field_of req_body ''description'' = JStr ds"
     "field_of req_body ''tags'' = JArr (map JStr ss)"
     "field_of req_body ''features'' = JStr fs"
    using b d' t' f' by simp_all
  show ?thesis
    apply (rule exI[of _ ds], rule exI[of _ ss], rule exI[of _ fs])
    unfolding Let_def evs_def[symmetric] h1_def[symmetric] h2_def[symmetric]
      r1_def[symmetric] r2_def[symmetric] r3_def[symmetric] expected_def[symmetric]
    using body main by (intro conjI) simp_all
qed

theorem vectors_when_nonempty_witness:
  "safeParse (validUrl healthy) productSchema sample_product = Inr sample_product
   \<and> \<not> failed_embedding healthy [] (snd (createProduct healthy sample_product []))
   \<and> embedding_inputs (snd (createProduct healthy sample_product [])) =
       [JStr ''Conveniently charge your devices'', JStr ''charging wireless'',
        JStr ''Qi-Compatible, Fast Charging'']
   \<and> stored_field ''descriptionVector'' (snd (createProduct healthy sample_product [])) =
       [JArr [JNum (Fin 1), JNum (Fin 0)]]
   \<and> stored_field ''tagsVector'' (snd (createProduct healthy sample_product [])) =
       [JArr [JNum (Fin 1), JNum (Fin 0)]]
   \<and> stored_field ''featuresVector'' (snd (createProduct healthy sample_product [])) =
       [JArr [JNum (Fin 1), JNum (Fin 0)]]
   \<and> safeParse (validUrl healthy) productSchema sparse_product = Inr sparse_product
   \<and> \<not> failed_embedding healthy [] (snd (createProduct healthy sparse_product []))
   \<and> embedding_inputs (snd (createProduct healthy sparse_product [])) =
       [JStr ''Qi-Compatible, Fast Charging'']
   \<and> stored_field ''descriptionVector'' (snd (createProduct healthy sparse_product [])) = [JUndefined]
   \<and> stored_field ''tagsVector'' (snd (createProduct healthy sparse_product [])) = [JUndefined]
   \<and> stored_field ''featuresVector'' (snd (createProduct healthy sparse_product [])) =
       [JArr [JNum (Fin 1), JNum (Fin 0)]]"
proof -
  from vectors_when_nonempty[OF sample_parse] obtain ds ss fs where
    a: "field_of sample_product ''description'' = JStr ds"
       "field_of sample_product ''tags'' = JArr (map JStr ss)"
       "field_of sample_product ''features'' = JStr fs"
    and L: "\<not> failed_embedding healthy [] (snd (createProduct healthy sample_product [])) \<longrightarrow>
       embedding_inputs (snd (createProduct healthy sample_product [])) =
         (if ds \<noteq> [] then [JStr ds] else [])
         @ (if ss \<noteq> [] then [JStr (join_with '' '' ss)] else [])
         @ (if fs \<noteq> [] then [JStr fs] else [])"
    unfolding Let_def by blast
  have ds: "ds = ''Conveniently charge your devices''" and fs: "fs = ''Qi-Compatible, Fast Charging''"
    using a(1,3) by (simp_all add: sample_product_def)
  have "map JStr ss = map JStr [''charging'', ''wireless'']"
    using a(2) by (simp add: sample_product_def)
  then have ss: "ss = [''charging'', ''wireless'']"
    by (rule map_injective) (simp add: inj_on_def)
  from L sample_not_failed
  have e: "embedding_inputs (snd (createProduct healthy sample_product [])) =
       [JStr ''Conveniently charge your devices'', JStr ''charging wireless'',
        JStr ''Qi-Compatible, Fast Charging'']"
    by (simp add: ds ss fs)
  have st: "stored_field ''descriptionVector'' (snd (createProduct healthy sample_product [])) =
       [JArr [JNum (Fin 1), JNum (Fin 0)]]"
    "stored_field ''tagsVector'' (snd (createProduct healthy sample_product [])) =
       [JArr [JNum (Fin 1), JNum (Fin 0)]]"
    "stored_field ''featuresVector'' (snd (createProduct healthy sample_product [])) =
       [JArr [JNum (Fin 1), JNum (Fin 0)]]"
    unfolding sample_run by (simp_all add: sample_document_def sample_product_def)
  have sp: "embedding_inputs (snd (createProduct healthy sparse_product [])) =
       [JStr ''Qi-Compatible, Fast Charging'']"
    "stored_field ''descriptionVector'' (snd (createProduct healthy sparse_product [])) = [JUndefined]"
    "stored_field ''tagsVector'' (snd (createProduct healthy sparse_product [])) = [JUndefined]"
    "stored_field ''featuresVector'' (snd (createProduct healthy sparse_product [])) =
       [JArr [JNum (Fin 1), JNum (Fin 0)]]"
    unfolding sparse_run
    by (simp_all add: sparse_document_def sparse_product_def sample_product_def)
  show ?thesis
    using sample_parse sample_not_failed e st sparse_parse sparse_not_failed sp
      vectors_when_nonempty[OF sparse_parse]
    by (simp only: simp_thms)
qed

subsection \<open>Identifier and field preservation\<close>




end
